theory Spec2Isabelle
  imports Complex_Main "HOL-Library.Multiset" "HOL-Library.Sublist" "HOL-Library.Log_Nat"
begin

section \<open>Data model (types/expense.ts)\<close>

text \<open>
  The expense tracker keeps a list of \<open>Expense\<close> objects in the browser's localStorage
  and derives a summary, a filtered view and a CSV text from it. The embedding follows the
  TypeScript declarations: the category union is a datatype, the interfaces are records.

  A JavaScript \<open>number\<close> is an IEEE-754 double, whose addition rounds. The development
  keeps the number type abstract (a type variable \<open>'n\<close> with \<open>0\<close>, \<open>+\<close>, \<open>/\<close> and an
  order), so that a theorem proved for every such type does not depend on any law of exact
  arithmetic; a theorem that needs such a law says so in its sort constraint.
\<close>

datatype ExpenseCategory = Food | Transportation | Entertainment | Shopping | Bills | Other

record 'n Expense =
  id' :: string
  date :: string
  amount :: 'n
  category :: ExpenseCategory
  description :: string
  createdAt :: string
  updatedAt :: string

text \<open>
  \<open>Partial<Expense>\<close>: every property is optional. \<open>None\<close> is a property that the object
  does not have.
\<close>

record 'n PartialExpense =
  p_id :: "string option"
  p_date :: "string option"
  p_amount :: "'n option"
  p_category :: "ExpenseCategory option"
  p_description :: "string option"
  p_createdAt :: "string option"
  p_updatedAt :: "string option"

datatype CategoryChoice = All | Only ExpenseCategory

record ExpenseFilters =
  category' :: "CategoryChoice option"
  startDate :: "string option"
  endDate :: "string option"
  searchQuery :: "string option"

record 'n ExpenseSummary =
  totalExpenses :: 'n
  monthlyTotal :: 'n
  categoryTotals :: "ExpenseCategory \<Rightarrow> 'n"
  topCategory :: "ExpenseCategory option"
  averageExpense :: 'n

section \<open>The runtime the code calls into\<close>

text \<open>
  The code reads the system clock (\<open>new Date()\<close>), parses date strings (\<open>new Date(s)\<close>),
  asks a date for its month and year in the local time zone, prints a date
  (\<open>toISOString\<close>) and tests \<open>typeof window\<close>. None of this is code of the repository;
  what a string parses to and which month an instant falls in depend on the engine and on
  the time zone. The runtime is therefore a parameter of every operation. A time value is
  the number of milliseconds since the epoch; \<open>None\<close> is the time value \<open>NaN\<close> of an
  Invalid Date.
\<close>

record runtime =
  clock :: int
  newDate :: "string \<Rightarrow> int option"
  getMonth :: "int \<Rightarrow> int"
  getFullYear :: "int \<Rightarrow> int"
  toISOString :: "int \<Rightarrow> string"
  hasWindow :: bool

section \<open>Persistence (lib/storage.ts)\<close>

text \<open>
  localStorage holds a text under the one key \<open>STORAGE_KEY\<close>. The model keeps, in place
  of the text, what \<open>JSON.parse\<close> makes of it: the empty text, a text that
  \<open>JSON.parse\<close> rejects, or a text that parses to a value. The value is whatever JSON
  the text holds: an array, \<open>null\<close>, a boolean, a number, a string or an object.
  \<open>getExpenses\<close> returns it at the type \<open>Expense[]\<close> without looking at it, so the
  model keeps the kinds apart. An array is taken at its declared element type, and an
  object stands for any object: no operation here reads one. The text that
  \<open>JSON.stringify\<close> writes for a list of expenses parses back to that list.

  \<open>getItem\<close> and \<open>setItem\<close> can throw (access denied, quota exceeded); the code logs
  what it catches to the console, which is not modelled.
\<close>

datatype 'n jsValue =
  JArray "'n Expense list" | JNull | JBoolean bool | JNumber 'n | JString string | JObject

datatype 'n stored = EmptyText | Malformed | Json "'n jsValue"

datatype exn = SecurityError | SyntaxError | QuotaExceededError | TypeError

record 'n localStorage =
  getItemThrows :: bool
  setItemThrows :: "'n Expense list \<Rightarrow> bool"
  item :: "'n stored option"

definition getItem :: "'n localStorage \<Rightarrow> exn + 'n stored option" where
  "getItem ls = (if getItemThrows ls then Inl SecurityError else Inr (item ls))"

definition setItem :: "'n Expense list \<Rightarrow> 'n localStorage \<Rightarrow> exn + 'n localStorage" where
  "setItem expenses ls =
     (if setItemThrows ls expenses then Inl QuotaExceededError
      else Inr (ls\<lparr>item := Some (Json (JArray expenses))\<rparr>))"

fun JSON_parse :: "'n stored \<Rightarrow> exn + 'n jsValue" where
  "JSON_parse EmptyText = Inl SyntaxError"
| "JSON_parse Malformed = Inl SyntaxError"
| "JSON_parse (Json v) = Inr v"

text \<open>The body of the \<open>try\<close> block of \<open>getExpenses\<close>: \<open>data ? JSON.parse(data) : []\<close>.\<close>

definition readExpenses :: "'n localStorage \<Rightarrow> exn + 'n jsValue" where
  "readExpenses ls =
     (case getItem ls of
        Inl error \<Rightarrow> Inl error
      | Inr data \<Rightarrow>
          (case data of
             None \<Rightarrow> Inr (JArray [])
           | Some EmptyText \<Rightarrow> Inr (JArray [])
           | Some text \<Rightarrow> JSON_parse text))"

definition getExpenses :: "runtime \<Rightarrow> 'n localStorage \<Rightarrow> 'n jsValue" where
  "getExpenses rt ls =
     (if \<not> hasWindow rt then JArray []
      else (case readExpenses ls of Inl error \<Rightarrow> JArray [] | Inr expenses \<Rightarrow> expenses))"

definition saveExpenses :: "runtime \<Rightarrow> 'n Expense list \<Rightarrow> 'n localStorage \<Rightarrow> 'n localStorage" where
  "saveExpenses rt expenses ls =
     (if \<not> hasWindow rt then ls
      else (case setItem expenses ls of Inl error \<Rightarrow> ls | Inr ls' \<Rightarrow> ls'))"

text \<open>
  The mutating operations use what \<open>getExpenses\<close> returns as an array, and nothing in
  them catches. Each one therefore has three outcomes: it throws; it returns the new list
  of expenses, with the storage after \<open>saveExpenses\<close>; or it returns an array that is not
  a list of expenses. The last happens only when \<open>addExpense\<close> finds a stored string:
  \<open>[...expenses, expense]\<close> is then the characters of the string followed by the
  expense, which the model, keeping arrays at their declared element type, does not follow
  further.
\<close>

datatype 'a outcome = Throws exn | Returns 'a | ReturnsUntyped

text \<open>
  \<open>[...expenses, expense]\<close>: an array is copied, a string is iterated (the empty string
  gives no element), and \<open>null\<close>, a boolean, a number or an object is not iterable.
\<close>

fun spreadWith :: "'n jsValue \<Rightarrow> 'n Expense \<Rightarrow> 'n Expense list outcome" where
  "spreadWith (JArray expenses) expense = Returns (expenses @ [expense])"
| "spreadWith (JString s) expense = (if s = [] then Returns [expense] else ReturnsUntyped)"
| "spreadWith JNull expense = Throws TypeError"
| "spreadWith (JBoolean b) expense = Throws TypeError"
| "spreadWith (JNumber n) expense = Throws TypeError"
| "spreadWith JObject expense = Throws TypeError"

text \<open>
  \<open>expenses.map(f)\<close> and \<open>expenses.filter(p)\<close>: only an array has these methods; on
  \<open>null\<close> the property access throws, on the other values the call of \<open>undefined\<close>
  does.
\<close>

fun arrayMap :: "('n Expense \<Rightarrow> 'n Expense) \<Rightarrow> 'n jsValue \<Rightarrow> 'n Expense list outcome" where
  "arrayMap f (JArray expenses) = Returns (map f expenses)"
| "arrayMap f JNull = Throws TypeError"
| "arrayMap f (JBoolean b) = Throws TypeError"
| "arrayMap f (JNumber n) = Throws TypeError"
| "arrayMap f (JString s) = Throws TypeError"
| "arrayMap f JObject = Throws TypeError"

fun arrayFilter :: "('n Expense \<Rightarrow> bool) \<Rightarrow> 'n jsValue \<Rightarrow> 'n Expense list outcome" where
  "arrayFilter p (JArray expenses) = Returns (filter p expenses)"
| "arrayFilter p JNull = Throws TypeError"
| "arrayFilter p (JBoolean b) = Throws TypeError"
| "arrayFilter p (JNumber n) = Throws TypeError"
| "arrayFilter p (JString s) = Throws TypeError"
| "arrayFilter p JObject = Throws TypeError"

text \<open>The last two lines of each operation: \<open>saveExpenses(newExpenses); return newExpenses\<close>.\<close>

fun saveAndReturn ::
  "runtime \<Rightarrow> 'n localStorage \<Rightarrow> 'n Expense list outcome
     \<Rightarrow> ('n Expense list \<times> 'n localStorage) outcome" where
  "saveAndReturn rt ls (Throws error) = Throws error"
| "saveAndReturn rt ls ReturnsUntyped = ReturnsUntyped"
| "saveAndReturn rt ls (Returns newExpenses) = Returns (newExpenses, saveExpenses rt newExpenses ls)"

definition addExpense ::
  "runtime \<Rightarrow> 'n Expense \<Rightarrow> 'n localStorage \<Rightarrow> ('n Expense list \<times> 'n localStorage) outcome" where
  "addExpense rt expense ls =
     (let expenses = getExpenses rt ls;
          newExpenses = spreadWith expenses expense
      in saveAndReturn rt ls newExpenses)"

text \<open>
  \<open>{ ...expense, ...updatedExpense, updatedAt: new Date().toISOString() }\<close>: the properties
  of \<open>updatedExpense\<close> overwrite those of \<open>expense\<close>, then \<open>updatedAt\<close> is set. The clock
  is taken to show one time during the call.
\<close>

definition spread :: "'n Expense \<Rightarrow> 'n PartialExpense \<Rightarrow> 'n Expense" where
  "spread expense updatedExpense =
     \<lparr> id' = (case p_id updatedExpense of None \<Rightarrow> id' expense | Some v \<Rightarrow> v),
       date = (case p_date updatedExpense of None \<Rightarrow> date expense | Some v \<Rightarrow> v),
       amount = (case p_amount updatedExpense of None \<Rightarrow> amount expense | Some v \<Rightarrow> v),
       category = (case p_category updatedExpense of None \<Rightarrow> category expense | Some v \<Rightarrow> v),
       description =
         (case p_description updatedExpense of None \<Rightarrow> description expense | Some v \<Rightarrow> v),
       createdAt = (case p_createdAt updatedExpense of None \<Rightarrow> createdAt expense | Some v \<Rightarrow> v),
       updatedAt = (case p_updatedAt updatedExpense of None \<Rightarrow> updatedAt expense | Some v \<Rightarrow> v) \<rparr>"

definition updateExpense ::
  "runtime \<Rightarrow> string \<Rightarrow> 'n PartialExpense \<Rightarrow> 'n localStorage
     \<Rightarrow> ('n Expense list \<times> 'n localStorage) outcome" where
  "updateExpense rt i updatedExpense ls =
     (let expenses = getExpenses rt ls;
          newExpenses =
            arrayMap (\<lambda>expense.
                        if id' expense = i
                        then (spread expense updatedExpense)
                               \<lparr>updatedAt := toISOString rt (clock rt)\<rparr>
                        else expense) expenses
      in saveAndReturn rt ls newExpenses)"

definition deleteExpense ::
  "runtime \<Rightarrow> string \<Rightarrow> 'n localStorage \<Rightarrow> ('n Expense list \<times> 'n localStorage) outcome" where
  "deleteExpense rt i ls =
     (let expenses = getExpenses rt ls;
          newExpenses = arrayFilter (\<lambda>expense. id' expense \<noteq> i) expenses
      in saveAndReturn rt ls newExpenses)"

section \<open>Summary and CSV export (lib/utils.ts)\<close>

text \<open>The keys of \<open>categoryTotals\<close> in the order the object literal creates them.\<close>

definition categoryKeys :: "ExpenseCategory list" where
  "categoryKeys = [Food, Transportation, Entertainment, Shopping, Bills, Other]"

text \<open>\<open>expenses.length\<close> as a number: a count \<open>n\<close> is \<open>0 + 1 + ... + 1\<close>.\<close>

primrec fromNat :: "nat \<Rightarrow> 'n::{zero,one,plus}" where
  "fromNat 0 = 0"
| "fromNat (Suc n) = fromNat n + 1"

text \<open>
  The predicate of \<open>monthlyExpenses\<close>. \<open>getMonth\<close> of an Invalid Date is \<open>NaN\<close>,
  which \<open>===\<close> equates with nothing.
\<close>

definition inCurrentMonth :: "runtime \<Rightarrow> int \<Rightarrow> int \<Rightarrow> ('n, 'z) Expense_scheme \<Rightarrow> bool" where
  "inCurrentMonth rt currentMonth currentYear expense =
     (case newDate rt (date expense) of
        None \<Rightarrow> False
      | Some expenseDate \<Rightarrow>
          getMonth rt expenseDate = currentMonth \<and> getFullYear rt expenseDate = currentYear)"

text \<open>One step of the \<open>forEach\<close> over the keys that selects the top category.\<close>

definition topStep ::
  "(ExpenseCategory \<Rightarrow> 'n::ord) \<Rightarrow> ExpenseCategory option \<times> 'n \<Rightarrow> ExpenseCategory
     \<Rightarrow> ExpenseCategory option \<times> 'n" where
  "topStep totals acc cat =
     (case acc of (topCat, maxAmount) \<Rightarrow>
        if totals cat > maxAmount then (Some cat, totals cat) else (topCat, maxAmount))"

text \<open>
  The local constants of the source that share a name with a field of the result
  (\<open>totalExpenses\<close>, \<open>monthlyTotal\<close>, \<open>categoryTotals\<close>, \<open>topCategory\<close>,
  \<open>averageExpense\<close>) are written \<open>total\<close>, \<open>monthly\<close>, \<open>totals\<close>, \<open>topCat\<close>,
  \<open>average\<close>.
\<close>

definition calculateSummary ::
  "runtime \<Rightarrow> ('n::{zero,one,plus,inverse,ord}) Expense list \<Rightarrow> 'n ExpenseSummary" where
  "calculateSummary rt expenses =
     (let now = clock rt;
          currentMonth = getMonth rt now;
          currentYear = getFullYear rt now;
          monthlyExpenses = filter (inCurrentMonth rt currentMonth currentYear) expenses;
          total = foldl (\<lambda>sum expense. sum + amount expense) 0 expenses;
          monthly = foldl (\<lambda>sum expense. sum + amount expense) 0 monthlyExpenses;
          totals =
            foldl (\<lambda>totals expense.
                     totals(category expense := totals (category expense) + amount expense))
                  (\<lambda>_. 0) expenses;
          topCat = fst (foldl (topStep totals) (None, 0) categoryKeys);
          average = (if length expenses > 0 then total / fromNat (length expenses) else 0)
      in \<lparr> totalExpenses = total,
           monthlyTotal = monthly,
           categoryTotals = totals,
           topCategory = topCat,
           averageExpense = average \<rparr>)"





section \<open>The filter of the expenses page (the effect of ExpensesPage)\<close>

text \<open>
  \<open>String.prototype.toLowerCase\<close> and \<open>String.prototype.includes\<close> (written
  \<open>includes'\<close>, \<open>includes\<close> being a keyword). A string of the model is a sequence of
  characters from U+0000 to U+00FF. Of these, \<open>toLowerCase\<close> changes the capital
  letters: \<open>A\<close> to \<open>Z\<close> (U+0041 to U+005A), and the accented capitals U+00C0 to U+00D6
  and U+00D8 to U+00DE; each becomes the character 32 places up. The multiplication sign
  U+00D7 between the two accented ranges is not a letter and stays.
\<close>

definition lowerChar :: "char \<Rightarrow> char" where
  "lowerChar c =
     (let n = (of_char c :: nat)
      in if (65 \<le> n \<and> n \<le> 90) \<or> (192 \<le> n \<and> n \<le> 214) \<or> (216 \<le> n \<and> n \<le> 222)
         then char_of (n + 32)
         else c)"

definition toLowerCase :: "string \<Rightarrow> string" where
  "toLowerCase s = map lowerChar s"

fun includes' :: "string \<Rightarrow> string \<Rightarrow> bool" where
  "includes' [] query = (query = [])"
| "includes' (c # cs) query = (prefix query (c # cs) \<or> includes' cs query)"

text \<open>
  \<open>new Date(a) >= new Date(b)\<close> and \<open><=\<close> compare the time values; a comparison with
  \<open>NaN\<close> is false.
\<close>

definition dateGe :: "runtime \<Rightarrow> string \<Rightarrow> string \<Rightarrow> bool" where
  "dateGe rt a b =
     (case (newDate rt a, newDate rt b) of (Some ta, Some tb) \<Rightarrow> ta \<ge> tb | _ \<Rightarrow> False)"

definition dateLe :: "runtime \<Rightarrow> string \<Rightarrow> string \<Rightarrow> bool" where
  "dateLe rt a b =
     (case (newDate rt a, newDate rt b) of (Some ta, Some tb) \<Rightarrow> ta \<le> tb | _ \<Rightarrow> False)"

text \<open>
  The comparator \<open>(a, b) => new Date(b.date).getTime() - new Date(a.date).getTime()\<close>.
  With an Invalid Date the difference is \<open>NaN\<close>, which \<open>sort\<close> reads as \<open>+0\<close>.
\<close>

definition compareFn :: "runtime \<Rightarrow> ('n, 'z) Expense_scheme \<Rightarrow> ('n, 'z) Expense_scheme \<Rightarrow> int" where
  "compareFn rt a b =
     (case (newDate rt (date b), newDate rt (date a)) of
        (Some tb, Some ta) \<Rightarrow> tb - ta
      | _ \<Rightarrow> 0)"

text \<open>
  \<open>Array.prototype.sort\<close> is a stable sort: with a consistent comparator every stable
  sorting algorithm returns the same array, and the model takes insertion sort. With an
  inconsistent comparator (an Invalid Date among the records) ECMAScript leaves the order
  to the engine; statements about the order assume valid dates.
\<close>

fun insertBy :: "('a \<Rightarrow> 'a \<Rightarrow> int) \<Rightarrow> 'a \<Rightarrow> 'a list \<Rightarrow> 'a list" where
  "insertBy cmp x [] = [x]"
| "insertBy cmp x (y # ys) = (if cmp x y \<le> 0 then x # y # ys else y # insertBy cmp x ys)"

definition sortBy :: "('a \<Rightarrow> 'a \<Rightarrow> int) \<Rightarrow> 'a list \<Rightarrow> 'a list" where
  "sortBy cmp xs = foldr (insertBy cmp) xs []"

definition nonEmpty :: "string option \<Rightarrow> bool" where
  "nonEmpty s = (case s of None \<Rightarrow> False | Some t \<Rightarrow> t \<noteq> [])"

definition filterExpenses :: "runtime \<Rightarrow> ExpenseFilters \<Rightarrow> 'n Expense list \<Rightarrow> 'n Expense list" where
  "filterExpenses rt filters expenses =
     (let filtered = expenses;
          filtered =
            (if category' filters \<noteq> None \<and> category' filters \<noteq> Some All
             then filter (\<lambda>expense. Some (Only (category expense)) = category' filters) filtered
             else filtered);
          filtered =
            (if nonEmpty (searchQuery filters)
             then (let query = toLowerCase (the (searchQuery filters))
                   in filter (\<lambda>expense. includes' (toLowerCase (description expense)) query)
                        filtered)
             else filtered);
          filtered =
            (if nonEmpty (startDate filters)
             then filter (\<lambda>expense. dateGe rt (date expense) (the (startDate filters))) filtered
             else filtered);
          filtered =
            (if nonEmpty (endDate filters)
             then filter (\<lambda>expense. dateLe rt (date expense) (the (endDate filters))) filtered
             else filtered)
      in sortBy (compareFn rt) filtered)"

section \<open>A reference runtime\<close>

text \<open>
  For concrete runs the development needs one runtime. \<open>utcBrowser now\<close> is a browser
  whose time zone is UTC and whose clock shows \<open>now\<close>. Its \<open>Date\<close> reads the two
  ISO-8601 shapes the application writes, \<open>YYYY-MM-DD\<close> (the value of a date input) and
  \<open>YYYY-MM-DDTHH:mm:ss.sssZ\<close> (the result of \<open>toISOString\<close>), and takes every other
  string for an Invalid Date. Days are counted in the proleptic Gregorian calendar.
\<close>

definition digit :: "char \<Rightarrow> int option" where
  "digit c = (if 48 \<le> (of_char c :: int) \<and> (of_char c :: int) \<le> 57 then Some (of_char c - 48) else None)"

fun decimal :: "int \<Rightarrow> string \<Rightarrow> int option" where
  "decimal acc [] = Some acc"
| "decimal acc (c # cs) =
     (case digit c of None \<Rightarrow> None | Some d \<Rightarrow> decimal (10 * acc + d) cs)"

definition daysFromCivil :: "int \<Rightarrow> int \<Rightarrow> int \<Rightarrow> int" where
  "daysFromCivil y m d =
     (let y' = (if m \<le> 2 then y - 1 else y);
          era = y' div 400;
          yoe = y' - era * 400;
          doy = (153 * (if m > 2 then m - 3 else m + 9) + 2) div 5 + d - 1;
          doe = yoe * 365 + yoe div 4 - yoe div 100 + doy
      in era * 146097 + doe - 719468)"

definition civilFromDays :: "int \<Rightarrow> int \<times> int \<times> int" where
  "civilFromDays z0 =
     (let z = z0 + 719468;
          era = z div 146097;
          doe = z - era * 146097;
          yoe = (doe - doe div 1460 + doe div 36524 - doe div 146096) div 365;
          y = yoe + era * 400;
          doy = doe - (365 * yoe + yoe div 4 - yoe div 100);
          mp = (5 * doy + 2) div 153;
          d = doy - (153 * mp + 2) div 5 + 1;
          m = (if mp < 10 then mp + 3 else mp - 9)
      in (if m \<le> 2 then y + 1 else y, m, d))"

definition msPerDay :: int where
  "msPerDay = 86400000"

definition field :: "nat \<Rightarrow> nat \<Rightarrow> string \<Rightarrow> int option" where
  "field from len s = decimal 0 (take len (drop from s))"

definition isoDay :: "string \<Rightarrow> int option" where
  "isoDay s =
     (case (field 0 4 s, field 5 2 s, field 8 2 s) of
        (Some y, Some m, Some d) \<Rightarrow>
          if s ! 4 = CHR ''-'' \<and> s ! 7 = CHR ''-'' \<and> 1 \<le> m \<and> m \<le> 12 \<and> 1 \<le> d
             \<and> civilFromDays (daysFromCivil y m d) = (y, m, d)
          then Some (daysFromCivil y m d)
          else None
      | _ \<Rightarrow> None)"

definition isoTime :: "string \<Rightarrow> int option" where
  "isoTime s =
     (case (field 11 2 s, field 14 2 s, field 17 2 s, field 20 3 s) of
        (Some h, Some mi, Some sec, Some ms) \<Rightarrow>
          if s ! 10 = CHR ''T'' \<and> s ! 13 = CHR '':'' \<and> s ! 16 = CHR '':'' \<and> s ! 19 = CHR ''.''
             \<and> s ! 23 = CHR ''Z'' \<and> h < 24 \<and> mi < 60 \<and> sec < 60
          then Some (((h * 60 + mi) * 60 + sec) * 1000 + ms)
          else None
      | _ \<Rightarrow> None)"

definition isoParse :: "string \<Rightarrow> int option" where
  "isoParse s =
     (if length s = 10 then map_option (\<lambda>d. d * msPerDay) (isoDay s)
      else if length s = 24 then
        (case (isoDay s, isoTime s) of
           (Some d, Some t) \<Rightarrow> Some (d * msPerDay + t)
         | _ \<Rightarrow> None)
      else None)"

definition utcMonth :: "int \<Rightarrow> int" where
  "utcMonth t = (case civilFromDays (t div msPerDay) of (y, m, d) \<Rightarrow> m - 1)"

definition utcFullYear :: "int \<Rightarrow> int" where
  "utcFullYear t = (case civilFromDays (t div msPerDay) of (y, m, d) \<Rightarrow> y)"

definition pad :: "int list \<Rightarrow> int \<Rightarrow> string" where
  "pad weights n = map (\<lambda>w. char_of (48 + n div w mod 10)) weights"

definition isoString :: "int \<Rightarrow> string" where
  "isoString t =
     (case civilFromDays (t div msPerDay) of (y, m, d) \<Rightarrow>
        let ms = t mod msPerDay
        in pad [1000, 100, 10, 1] y @ ''-'' @ pad [10, 1] m @ ''-'' @ pad [10, 1] d @ ''T''
           @ pad [10, 1] (ms div 3600000) @ '':'' @ pad [10, 1] (ms div 60000 mod 60) @ '':''
           @ pad [10, 1] (ms div 1000 mod 60) @ ''.'' @ pad [100, 10, 1] (ms mod 1000) @ ''Z'')"

definition utcBrowser :: "int \<Rightarrow> runtime" where
  "utcBrowser now =
     \<lparr> clock = now, newDate = isoParse, getMonth = utcMonth, getFullYear = utcFullYear,
       toISOString = isoString, hasWindow = True \<rparr>"


section \<open>Double arithmetic\<close>

text \<open>
  The number type of the engine, for concrete runs: a double is the rational it denotes, and
  the sum and the quotient of two doubles are the exact results rounded to 53 significant
  bits, ties to even (IEEE-754 binary64, round to nearest). The model leaves out what the
  sums of a few amounts of money do not reach: overflow to \<open>Infinity\<close>, subnormal
  numbers, \<open>NaN\<close>, division by zero and the sign of zero. \<open>literal x\<close> is the double that the decimal
  literal \<open>x\<close> denotes, as \<open>parseFloat\<close> and \<open>JSON.parse\<close> read it.
\<close>

datatype double = Double (val: rat)

definition ilog2 :: "rat \<Rightarrow> int" where
  "ilog2 x = (if 1 \<le> x then bitlen \<lfloor>x\<rfloor> - 1 else - bitlen (\<lceil>1 / x\<rceil> - 1))"

definition roundHalfEven :: "rat \<Rightarrow> int" where
  "roundHalfEven m =
     (let r = \<lfloor>m\<rfloor>; frac = m - of_int r
      in if frac > 1 / 2 \<or> (frac = 1 / 2 \<and> odd r) then r + 1 else r)"

definition fl :: "rat \<Rightarrow> rat" where
  "fl x =
     (if x = 0 then 0
      else (let e = ilog2 \<bar>x\<bar> - 52
            in sgn x * of_int (roundHalfEven (\<bar>x\<bar> / 2 powi e)) * 2 powi e))"

instantiation double :: "{zero,one,plus,inverse,ord}"
begin

definition zero_double :: double where
  "zero_double = Double 0"

definition one_double :: double where
  "one_double = Double 1"

definition plus_double :: "double \<Rightarrow> double \<Rightarrow> double" where
  "plus_double a b = Double (fl (val a + val b))"

definition divide_double :: "double \<Rightarrow> double \<Rightarrow> double" where
  "divide_double a b = Double (fl (val a / val b))"

definition inverse_double :: "double \<Rightarrow> double" where
  "inverse_double a = Double (fl (1 / val a))"

definition less_eq_double :: "double \<Rightarrow> double \<Rightarrow> bool" where
  "less_eq_double a b = (val a \<le> val b)"

definition less_double :: "double \<Rightarrow> double \<Rightarrow> bool" where
  "less_double a b = (val a < val b)"

instance ..

end

definition literal :: "rat \<Rightarrow> double" where
  "literal x = Double (fl x)"

text \<open>Doubles are ordered as the rationals they denote.\<close>

instance double :: linorder
proof
  fix x y z :: double
  show "(x < y) = (x \<le> y \<and> \<not> y \<le> x)"
    by (auto simp: less_double_def less_eq_double_def)
  show "x \<le> x"
    by (simp add: less_eq_double_def)
  show "x \<le> y \<Longrightarrow> y \<le> z \<Longrightarrow> x \<le> z"
    by (simp add: less_eq_double_def)
  show "x \<le> y \<Longrightarrow> y \<le> x \<Longrightarrow> x = y"
    by (simp add: less_eq_double_def double.expand)
  show "x \<le> y \<or> y \<le> x"
    by (auto simp: less_eq_double_def)
qed



section \<open>Sample data\<close>

text \<open>
  The scenario of the specification: three records, dated 2024-01-05 (Food, 20),
  2024-01-20 (Food, 30) and 2024-02-01 (Bills, 50), as the form stores them.
\<close>

definition expense ::
  "string \<Rightarrow> string \<Rightarrow> 'n \<Rightarrow> ExpenseCategory \<Rightarrow> string \<Rightarrow> 'n Expense" where
  "expense i d a c text =
     \<lparr> id' = i, date = d, amount = a, category = c, description = text,
       createdAt = ''2024-02-10T09:30:00.000Z'', updatedAt = ''2024-02-10T09:30:00.000Z'' \<rparr>"

definition scenario :: "'n::numeral Expense list" where
  "scenario =
     [expense ''a1'' ''2024-01-05T00:00:00.000Z'' 20 Food ''Groceries'',
      expense ''a2'' ''2024-01-20T00:00:00.000Z'' 30 Food ''Lunch at the market'',
      expense ''a3'' ''2024-02-01T00:00:00.000Z'' 50 Bills ''Electricity'']"

text \<open>Three small amounts, 0.1, 0.2 and 0.4, as doubles.\<close>

definition smallChange :: "double Expense list" where
  "smallChange =
     [expense ''b1'' ''2024-02-01T00:00:00.000Z'' (literal (1 / 10)) Food ''Candy'',
      expense ''b2'' ''2024-02-02T00:00:00.000Z'' (literal (2 / 10)) Bills ''Stamp'',
      expense ''b3'' ''2024-02-03T00:00:00.000Z'' (literal (4 / 10)) Food ''Gum'']"

text \<open>The amounts of the scenario, 20, 30 and 50, as doubles.\<close>

definition wholeDollars :: "double Expense list" where
  "wholeDollars =
     [expense ''c1'' ''2024-01-05T00:00:00.000Z'' (literal 20) Food ''Groceries'',
      expense ''c2'' ''2024-01-20T00:00:00.000Z'' (literal 30) Food ''Lunch at the market'',
      expense ''c3'' ''2024-02-01T00:00:00.000Z'' (literal 50) Bills ''Electricity'']"

text \<open>The instants 2024-02-15T12:00Z and 2024-03-15T12:00Z.\<close>

definition midFebruary :: int where
  "midFebruary = 1707998400000"

definition midMarch :: int where
  "midMarch = 1710504000000"

text \<open>A storage that holds the list \<open>expenses\<close> and accepts every read and write.\<close>

definition storageOf :: "'n Expense list \<Rightarrow> 'n localStorage" where
  "storageOf expenses =
     \<lparr> getItemThrows = False, setItemThrows = (\<lambda>_. False), item = Some (Json (JArray expenses)) \<rparr>"

text \<open>The object \<open>{}\<close> as a \<open>Partial<Expense>\<close>.\<close>

definition noFields :: "'n PartialExpense" where
  "noFields =
     \<lparr> p_id = None, p_date = None, p_amount = None, p_category = None,
       p_description = None, p_createdAt = None, p_updatedAt = None \<rparr>"

text \<open>
  Settings of the filter form: the category Food with the other fields left empty; the
  search text \<open>LUNCH\<close> between 2024-01-10 and 2024-01-31 in all categories; the one day
  2024-01-20 as both start and end.
\<close>

definition foodOnly :: ExpenseFilters where
  "foodOnly =
     \<lparr> category' = Some (Only Food), startDate = Some [], endDate = Some [],
       searchQuery = Some [] \<rparr>"

definition januaryLunch :: ExpenseFilters where
  "januaryLunch =
     \<lparr> category' = Some All, startDate = Some ''2024-01-10'', endDate = Some ''2024-01-31'',
       searchQuery = Some ''LUNCH'' \<rparr>"




section \<open>Notions the statements use\<close>

text \<open>\<open>before d c\<close>: the key \<open>d\<close> comes before the key \<open>c\<close> in \<open>categoryKeys\<close>.\<close>

definition before :: "ExpenseCategory \<Rightarrow> ExpenseCategory \<Rightarrow> bool" where
  "before d c = (d \<in> set (takeWhile (\<lambda>k. k \<noteq> c) categoryKeys))"

text \<open>
  Amounts in whole units: every amount of the list is a whole number from 0.
  \<open>wholeTotal\<close> is their exact sum.
\<close>

definition units :: "(double, 'z) Expense_scheme \<Rightarrow> int" where
  "units e = \<lfloor>val (amount e)\<rfloor>"

definition wholeAmounts :: "(double, 'z) Expense_scheme list \<Rightarrow> bool" where
  "wholeAmounts xs = list_all (\<lambda>e. 0 \<le> val (amount e) \<and> of_int (units e) = val (amount e)) xs"

definition wholeTotal :: "(double, 'z) Expense_scheme list \<Rightarrow> int" where
  "wholeTotal xs = sum_list (map units xs)"


text \<open>What an operation returned, when it returned a list of expenses, and the storage it left.\<close>

fun returnedList :: "('n Expense list \<times> 'n localStorage) outcome \<Rightarrow> 'n Expense list option" where
  "returnedList (Returns (ys, ls')) = Some ys"
| "returnedList (Throws error) = None"
| "returnedList ReturnsUntyped = None"

fun storageAfter :: "('n Expense list \<times> 'n localStorage) outcome \<Rightarrow> 'n localStorage option" where
  "storageAfter (Returns (ys, ls')) = Some ls'"
| "storageAfter (Throws error) = None"
| "storageAfter ReturnsUntyped = None"

text \<open>The record at position \<open>k\<close> of the returned list.\<close>

definition returnedRecord ::
  "('n Expense list \<times> 'n localStorage) outcome \<Rightarrow> nat \<Rightarrow> 'n Expense option" where
  "returnedRecord r k =
     (case returnedList r of
        None \<Rightarrow> None
      | Some ys \<Rightarrow> if k < length ys then Some (ys ! k) else None)"

text \<open>A value is a list when it is an array.\<close>

fun isList :: "'n jsValue \<Rightarrow> bool" where
  "isList (JArray expenses) = True"
| "isList JNull = False"
| "isList (JBoolean b) = False"
| "isList (JNumber n) = False"
| "isList (JString s) = False"
| "isList JObject = False"

text \<open>
  The filter criteria in the words of the specification, one predicate each.

  Category: none is selected, or \<open>All\<close>, or the category of the record.
\<close>

definition categoryPasses :: "ExpenseFilters \<Rightarrow> ('n, 'z) Expense_scheme \<Rightarrow> bool" where
  "categoryPasses filters e =
     (category' filters = None \<or> category' filters = Some All
      \<or> category' filters = Some (Only (category e)))"

text \<open>
  Search text: two characters are the same letter, whatever their case, when they are equal
  or one is a capital letter and the other its small form. The capital letters are
  \<open>A\<close> to \<open>Z\<close> and the accented capitals U+00C0 to U+00D6 and U+00D8 to U+00DE; the
  small form of a capital letter stands 32 places after it. The description contains the
  text case-insensitively when some contiguous part of it matches the text letter by
  letter.
\<close>

definition capital :: "char \<Rightarrow> bool" where
  "capital c =
     (c \<in> set ''ABCDEFGHIJKLMNOPQRSTUVWXYZ'' \<or> (of_char c :: nat) \<in> {192..214} \<union> {216..222})"

definition smallOf :: "char \<Rightarrow> char \<Rightarrow> bool" where
  "smallOf u l = (capital u \<and> (of_char l :: nat) = of_char u + 32)"

definition sameLetter :: "char \<Rightarrow> char \<Rightarrow> bool" where
  "sameLetter a b = (a = b \<or> smallOf a b \<or> smallOf b a)"

definition textPasses :: "ExpenseFilters \<Rightarrow> ('n, 'z) Expense_scheme \<Rightarrow> bool" where
  "textPasses filters e =
     (case searchQuery filters of
        None \<Rightarrow> True
      | Some text \<Rightarrow>
          text = [] \<or> (\<exists>part. sublist part (description e) \<and> list_all2 sameLetter part text))"

text \<open>
  Dates: the date of the record and the bound are both read as instants, and the record is
  at or after the start, at or before the end.
\<close>

definition startPasses :: "runtime \<Rightarrow> ExpenseFilters \<Rightarrow> ('n, 'z) Expense_scheme \<Rightarrow> bool" where
  "startPasses rt filters e =
     (case startDate filters of
        None \<Rightarrow> True
      | Some start \<Rightarrow>
          start = [] \<or>
          (\<exists>t s. newDate rt (date e) = Some t \<and> newDate rt start = Some s \<and> s \<le> t))"

definition endPasses :: "runtime \<Rightarrow> ExpenseFilters \<Rightarrow> ('n, 'z) Expense_scheme \<Rightarrow> bool" where
  "endPasses rt filters e =
     (case endDate filters of
        None \<Rightarrow> True
      | Some end' \<Rightarrow>
          end' = [] \<or>
          (\<exists>t s. newDate rt (date e) = Some t \<and> newDate rt end' = Some s \<and> t \<le> s))"

definition passes :: "runtime \<Rightarrow> ExpenseFilters \<Rightarrow> ('n, 'z) Expense_scheme \<Rightarrow> bool" where
  "passes rt filters e =
     (categoryPasses filters e \<and> textPasses filters e \<and> startPasses rt filters e
      \<and> endPasses rt filters e)"

text \<open>The time value of a record's date, for records whose date is valid.\<close>

definition timeOf :: "runtime \<Rightarrow> ('n, 'z) Expense_scheme \<Rightarrow> int" where
  "timeOf rt e = the (newDate rt (date e))"

definition newestFirst :: "runtime \<Rightarrow> ('n, 'z) Expense_scheme list \<Rightarrow> bool" where
  "newestFirst rt xs = sorted_wrt (\<lambda>a b. timeOf rt a \<ge> timeOf rt b) xs"

section \<open>Persistence: what the operations return and store\<close>

lemma getExpenses_cases:
  "getExpenses rt ls =
     (if hasWindow rt \<and> \<not> getItemThrows ls
      then (case item ls of Some (Json v) \<Rightarrow> v | _ \<Rightarrow> JArray [])
      else JArray [])"
  by (simp add: getExpenses_def readExpenses_def getItem_def split: option.split stored.split)

lemma getExpenses_saveExpenses:
  "getExpenses rt (saveExpenses rt ys ls) =
     (if hasWindow rt \<and> \<not> getItemThrows ls \<and> \<not> setItemThrows ls ys then JArray ys
      else getExpenses rt ls)"
  by (simp add: getExpenses_cases saveExpenses_def setItem_def)

lemma item_saveExpenses:
  "hasWindow rt \<Longrightarrow> \<not> setItemThrows ls ys \<Longrightarrow> item (saveExpenses rt ys ls) = Some (Json (JArray ys))"
  by (simp add: saveExpenses_def setItem_def)

lemma deleteExpense_array:
  "getExpenses rt ls = JArray xs \<Longrightarrow>
   deleteExpense rt i ls =
     Returns (filter (\<lambda>e. id' e \<noteq> i) xs, saveExpenses rt (filter (\<lambda>e. id' e \<noteq> i) xs) ls)"
  by (simp add: deleteExpense_def Let_def)

lemma addExpense_array:
  "getExpenses rt ls = JArray xs \<Longrightarrow>
   addExpense rt e ls = Returns (xs @ [e], saveExpenses rt (xs @ [e]) ls)"
  by (simp add: addExpense_def Let_def)

lemma updateExpense_array:
  "getExpenses rt ls = JArray xs \<Longrightarrow>
   updateExpense rt i p ls =
     Returns
       (map (\<lambda>e. if id' e = i then (spread e p)\<lparr>updatedAt := toISOString rt (clock rt)\<rparr> else e) xs,
        saveExpenses rt
          (map (\<lambda>e. if id' e = i then (spread e p)\<lparr>updatedAt := toISOString rt (clock rt)\<rparr> else e)
             xs) ls)"
  by (simp add: updateExpense_def Let_def)

lemma ids_updated:
  "map id' (map (\<lambda>e. if id' e = i then (spread e p)\<lparr>updatedAt := u\<rparr> else e) xs) =
     map (\<lambda>j. if j = i then (case p_id p of None \<Rightarrow> j | Some v \<Rightarrow> v) else j) (map id' xs)"
  by (simp add: spread_def)

lemma getExpenses_error: "readExpenses ls = Inl error \<Longrightarrow> getExpenses rt ls = JArray []"
  by (simp add: getExpenses_def)

lemma count_list_filter_other:
  "id' e \<noteq> i \<Longrightarrow> count_list (filter (\<lambda>e. id' e \<noteq> i) xs) e = count_list xs e"
  by (induction xs) auto

lemma scenario_ids: "map id' (scenario :: 'n::numeral Expense list) = [''a1'', ''a2'', ''a3'']"
  by (simp add: scenario_def expense_def)

lemma getExpenses_storageOf: "getExpenses (utcBrowser now) (storageOf xs) = JArray xs"
  by (simp add: getExpenses_cases utcBrowser_def storageOf_def)

lemma saveExpenses_storageOf: "saveExpenses (utcBrowser now) ys (storageOf xs) = storageOf ys"
  by (simp add: saveExpenses_def setItem_def utcBrowser_def storageOf_def)

text \<open>
  Without a list in the storage the mutating operations do not return: on a stored
  \<open>null\<close>, boolean, number or object all three throw, and on a stored string
  \<open>updateExpense\<close> and \<open>deleteExpense\<close> throw.
\<close>

lemma operations_need_a_list:
  assumes "getExpenses rt ls = v" and "v = JNull \<or> v = JBoolean b \<or> v = JNumber n \<or> v = JObject"
  shows "addExpense rt e ls = Throws TypeError"
    and "updateExpense rt i p ls = Throws TypeError"
    and "deleteExpense rt i ls = Throws TypeError"
  using assms by (auto simp: addExpense_def updateExpense_def deleteExpense_def Let_def)

text \<open>
  Claim C10, as the code has it. \<open>getExpenses\<close> never fails outward: whatever the body of
  its \<open>try\<close> block throws is caught. It returns the empty list when there is no
  \<open>window\<close>, when \<open>getItem\<close> refuses the read, when no text is stored or the stored
  text is empty, and when \<open>JSON.parse\<close> rejects the text. In every other state it returns
  the value the stored text parses to, unexamined: a list exactly when that value is an
  array.
\<close>

theorem getExpenses_never_fails:
  "(\<not> hasWindow rt \<longrightarrow> getExpenses rt ls = JArray []) \<and>
   (\<forall>error. readExpenses ls = Inl error \<longrightarrow> getExpenses rt ls = JArray []) \<and>
   (getItemThrows ls \<longrightarrow> getExpenses rt ls = JArray []) \<and>
   (item ls = None \<longrightarrow> getExpenses rt ls = JArray []) \<and>
   (item ls = Some EmptyText \<longrightarrow> getExpenses rt ls = JArray []) \<and>
   (item ls = Some Malformed \<longrightarrow> getExpenses rt ls = JArray []) \<and>
   (\<forall>v. hasWindow rt \<and> \<not> getItemThrows ls \<and> item ls = Some (Json v)
      \<longrightarrow> getExpenses rt ls = v) \<and>
   (isList (getExpenses rt ls) \<longleftrightarrow>
      \<not> (hasWindow rt \<and> \<not> getItemThrows ls \<and> (\<exists>v. item ls = Some (Json v) \<and> \<not> isList v)))"
proof -
  have caught: "\<forall>error. readExpenses ls = Inl error \<longrightarrow> getExpenses rt ls = JArray []"
    by (simp add: getExpenses_error)
  have list: "isList (getExpenses rt ls) \<longleftrightarrow>
      \<not> (hasWindow rt \<and> \<not> getItemThrows ls \<and> (\<exists>v. item ls = Some (Json v) \<and> \<not> isList v))"
    by (simp add: getExpenses_cases split: option.split stored.split)
  from caught list show ?thesis
    by (simp add: getExpenses_cases)
qed

theorem getExpenses_never_fails_witness:
  "getExpenses (utcBrowser midFebruary) (storageOf scenario) = (JArray scenario :: rat jsValue) \<and>
   getExpenses (utcBrowser midFebruary) ((storageOf scenario)\<lparr>item := Some Malformed\<rparr>)
     = (JArray [] :: rat jsValue) \<and>
   getExpenses (utcBrowser midFebruary) ((storageOf scenario)\<lparr>item := Some EmptyText\<rparr>)
     = (JArray [] :: rat jsValue) \<and>
   getExpenses (utcBrowser midFebruary) ((storageOf scenario)\<lparr>item := None\<rparr>)
     = (JArray [] :: rat jsValue) \<and>
   getExpenses (utcBrowser midFebruary) ((storageOf scenario)\<lparr>getItemThrows := True\<rparr>)
     = (JArray [] :: rat jsValue) \<and>
   getExpenses ((utcBrowser midFebruary)\<lparr>hasWindow := False\<rparr>) (storageOf scenario)
     = (JArray [] :: rat jsValue) \<and>
   getExpenses (utcBrowser midFebruary) ((storageOf scenario)\<lparr>item := Some (Json (JNumber 42))\<rparr>)
     = (JNumber 42 :: rat jsValue)"
  using getExpenses_never_fails [of "utcBrowser midFebruary" "storageOf (scenario :: rat Expense list)"]
    getExpenses_never_fails [of "utcBrowser midFebruary"
      "(storageOf (scenario :: rat Expense list))\<lparr>item := Some Malformed\<rparr>"]
    getExpenses_never_fails [of "utcBrowser midFebruary"
      "(storageOf (scenario :: rat Expense list))\<lparr>item := Some EmptyText\<rparr>"]
    getExpenses_never_fails [of "utcBrowser midFebruary"
      "(storageOf (scenario :: rat Expense list))\<lparr>item := None\<rparr>"]
    getExpenses_never_fails [of "utcBrowser midFebruary"
      "(storageOf (scenario :: rat Expense list))\<lparr>getItemThrows := True\<rparr>"]
    getExpenses_never_fails [of "(utcBrowser midFebruary)\<lparr>hasWindow := False\<rparr>"
      "storageOf (scenario :: rat Expense list)"]
    getExpenses_never_fails [of "utcBrowser midFebruary"
      "(storageOf (scenario :: rat Expense list))\<lparr>item := Some (Json (JNumber 42))\<rparr>"]
  by (simp add: utcBrowser_def storageOf_def)

text \<open>
  The claim as written promises a list in every state of the storage. A stored text that
  is valid JSON but no array (\<open>null\<close>, \<open>{}\<close>, \<open>42\<close>) is parsed without an error
  and returned as it is.
\<close>

theorem getExpenses_not_a_list_counterexample:
  "getExpenses (utcBrowser midFebruary)
     ((storageOf scenario)\<lparr>item := Some (Json JNull)\<rparr>) = (JNull :: rat jsValue) \<and>
   \<not> isList (JNull :: rat jsValue) \<and>
   getExpenses (utcBrowser midFebruary)
     ((storageOf scenario)\<lparr>item := Some (Json JObject)\<rparr>) = (JObject :: rat jsValue) \<and>
   \<not> isList (JObject :: rat jsValue) \<and>
   getExpenses (utcBrowser midFebruary)
     ((storageOf scenario)\<lparr>item := Some (Json (JNumber 42))\<rparr>) = (JNumber 42 :: rat jsValue) \<and>
   \<not> isList (JNumber 42 :: rat jsValue)"
  by (simp add: getExpenses_cases utcBrowser_def storageOf_def)

text \<open>
  Claim C9. For every stored list, \<open>deleteExpense i\<close> returns, without an error, the list
  without the records whose id is \<open>i\<close>: no record with that id is left, every other
  record occurs as often as before, and the records that remain keep their order. An id
  that matches no record leaves the list as it was. The returned list is what the storage
  holds afterwards whenever the write goes through.
\<close>

theorem deleteExpense_removes:
  assumes "getExpenses rt ls = JArray xs"
  shows
    "\<exists>ys ls'. deleteExpense rt i ls = Returns (ys, ls') \<and>
       ys = filter (\<lambda>e. id' e \<noteq> i) xs \<and>
       i \<notin> id' ` set ys \<and>
       (\<forall>e. id' e \<noteq> i \<longrightarrow> count_list ys e = count_list xs e) \<and>
       subseq ys xs \<and>
       (i \<notin> id' ` set xs \<longrightarrow> ys = xs) \<and>
       (hasWindow rt \<and> \<not> setItemThrows ls ys \<longrightarrow> item ls' = Some (Json (JArray ys)))"
proof -
  let ?ys = "filter (\<lambda>e. id' e \<noteq> i) xs"
  let ?ls = "saveExpenses rt ?ys ls"
  have returns: "deleteExpense rt i ls = Returns (?ys, ?ls)"
    using assms by (rule deleteExpense_array)
  have gone: "i \<notin> id' ` set ?ys"
    by auto
  have kept: "\<forall>e. id' e \<noteq> i \<longrightarrow> count_list ?ys e = count_list xs e"
    by (simp add: count_list_filter_other)
  have order: "subseq ?ys xs"
    by simp
  have same: "i \<notin> id' ` set xs \<longrightarrow> ?ys = xs"
    by (auto intro: filter_True)
  have saved: "hasWindow rt \<and> \<not> setItemThrows ls ?ys \<longrightarrow> item ?ls = Some (Json (JArray ?ys))"
    by (simp add: item_saveExpenses)
  from returns gone kept order same saved show ?thesis
    by blast
qed

theorem deleteExpense_removes_witness:
  "map_option (map id')
     (returnedList (deleteExpense (utcBrowser midFebruary) ''a2''
        (storageOf (scenario :: rat Expense list)))) = Some [''a1'', ''a3''] \<and>
   returnedList (deleteExpense (utcBrowser midFebruary) ''zz''
        (storageOf (scenario :: rat Expense list))) = Some scenario \<and>
   map_option item
     (storageAfter (deleteExpense (utcBrowser midFebruary) ''zz''
        (storageOf (scenario :: rat Expense list)))) = Some (Some (Json (JArray scenario)))"
proof -
  let ?rt = "utcBrowser midFebruary"
  let ?ls = "storageOf (scenario :: rat Expense list)"
  have xs: "getExpenses ?rt ?ls = JArray scenario"
    by (rule getExpenses_storageOf)
  from deleteExpense_removes [OF xs, of "''a2''"]
  obtain ys ls' where "deleteExpense ?rt ''a2'' ?ls = Returns (ys, ls')"
    and "ys = filter (\<lambda>e. id' e \<noteq> ''a2'') scenario"
    by blast
  then have first: "map_option (map id') (returnedList (deleteExpense ?rt ''a2'' ?ls))
      = Some [''a1'', ''a3'']"
    by (simp add: scenario_def expense_def)
  have absent: "''zz'' \<notin> id' ` set (scenario :: rat Expense list)"
    by (simp add: scenario_def expense_def)
  from deleteExpense_removes [OF xs, of "''zz''"]
  obtain zs ls'' where returns: "deleteExpense ?rt ''zz'' ?ls = Returns (zs, ls'')"
    and same: "''zz'' \<notin> id' ` set (scenario :: rat Expense list) \<longrightarrow> zs = scenario"
    and saved: "hasWindow ?rt \<and> \<not> setItemThrows ?ls zs \<longrightarrow> item ls'' = Some (Json (JArray zs))"
    by blast
  from same absent have zs: "zs = scenario"
    by (rule mp)
  have "hasWindow ?rt \<and> \<not> setItemThrows ?ls zs"
    by (simp add: utcBrowser_def storageOf_def)
  with saved have "item ls'' = Some (Json (JArray zs))"
    by (rule mp)
  with returns zs first show ?thesis
    by simp
qed

lemma map_replace_distinct:
  assumes "distinct ids" and "j \<notin> set ids"
  shows "distinct (map (\<lambda>k. if k = i then j else k) ids)"
proof -
  have "inj_on (\<lambda>k. if k = i then j else k) (set ids)"
    using assms(2) by (auto simp: inj_on_def split: if_splits)
  with assms(1) show ?thesis
    by (simp add: distinct_map)
qed

lemma map_replace_absent: "i \<notin> set ids \<Longrightarrow> map (\<lambda>k. if k = i then f k else k) ids = ids"
  by (induction ids) auto

lemma map_replace_cases:
  assumes "distinct ids"
    and "g = None \<or> g = Some i \<or> i \<notin> set ids \<or> (\<exists>j. g = Some j \<and> j \<notin> set ids)"
  shows "distinct (map (\<lambda>k. if k = i then (case g of None \<Rightarrow> k | Some v \<Rightarrow> v) else k) ids)"
proof -
  let ?f = "\<lambda>k. if k = i then (case g of None \<Rightarrow> k | Some v \<Rightarrow> v) else k"
  consider (same) "g = None \<or> g = Some i"
    | (absent) "i \<notin> set ids"
    | (fresh) j where "g = Some j" "j \<notin> set ids"
    using assms(2) by auto
  then show ?thesis
  proof cases
    case same
    then have "map ?f ids = ids"
      by (auto intro: map_idI)
    with assms(1) show ?thesis by simp
  next
    case absent
    then have "map ?f ids = ids"
      by (rule map_replace_absent)
    with assms(1) show ?thesis by simp
  next
    case fresh
    show ?thesis
      unfolding fresh(1) option.case by (rule map_replace_distinct [OF assms(1) fresh(2)])
  qed
qed

lemma distinct_ids_updated:
  assumes "distinct (map id' xs)"
    and "p_id p = None \<or> p_id p = Some i \<or> i \<notin> id' ` set xs
         \<or> (\<exists>j. p_id p = Some j \<and> j \<notin> id' ` set xs)"
  shows "distinct (map id'
      (map (\<lambda>e. if id' e = i then (spread e p)\<lparr>updatedAt := u\<rparr> else e) xs))"
proof -
  have "p_id p = None \<or> p_id p = Some i \<or> i \<notin> set (map id' xs)
         \<or> (\<exists>j. p_id p = Some j \<and> j \<notin> set (map id' xs))"
    using assms(2) by simp
  with assms(1) show ?thesis
    unfolding ids_updated by (rule map_replace_cases)
qed

lemma distinct_ids_saved:
  assumes "getExpenses rt ls = JArray xs" and "distinct (map id' xs)" and "distinct (map id' ys)"
  shows "\<exists>zs. getExpenses rt (saveExpenses rt ys ls) = JArray zs \<and> distinct (map id' zs)"
  using assms by (simp add: getExpenses_saveExpenses)

text \<open>
  Claim C2, as the code has it. For every stored list, \<open>updateExpense i p\<close> returns,
  without an error, a list of the same length. A record whose id is not \<open>i\<close> is
  returned as it was. On a record whose id is \<open>i\<close>, every property that \<open>p\<close> supplies
  takes the supplied value, \<open>id\<close> and \<open>createdAt\<close> included; every property that \<open>p\<close>
  does not supply keeps its value, so \<open>id\<close> and \<open>createdAt\<close> are untouched when \<open>p\<close>
  has neither; and \<open>updatedAt\<close> is the time of the call whatever \<open>p\<close> says. When no
  record has the id \<open>i\<close> the list is returned unchanged.
\<close>

theorem updateExpense_frame:
  assumes "getExpenses rt ls = JArray xs"
  shows
    "\<exists>ys ls'. updateExpense rt i p ls = Returns (ys, ls') \<and>
       length ys = length xs \<and>
       (\<forall>k < length xs.
          (let old = xs ! k; new = ys ! k
           in if id' old = i
              then id' new = (case p_id p of None \<Rightarrow> id' old | Some v \<Rightarrow> v) \<and>
                   date new = (case p_date p of None \<Rightarrow> date old | Some v \<Rightarrow> v) \<and>
                   amount new = (case p_amount p of None \<Rightarrow> amount old | Some v \<Rightarrow> v) \<and>
                   category new = (case p_category p of None \<Rightarrow> category old | Some v \<Rightarrow> v) \<and>
                   description new =
                     (case p_description p of None \<Rightarrow> description old | Some v \<Rightarrow> v) \<and>
                   createdAt new = (case p_createdAt p of None \<Rightarrow> createdAt old | Some v \<Rightarrow> v) \<and>
                   updatedAt new = toISOString rt (clock rt)
              else new = old)) \<and>
       ((\<forall>e \<in> set xs. id' e \<noteq> i) \<longrightarrow> ys = xs)"
proof -
  let ?f = "\<lambda>e. if id' e = i then (spread e p)\<lparr>updatedAt := toISOString rt (clock rt)\<rparr> else e"
  let ?ys = "map ?f xs"
  have returns: "updateExpense rt i p ls = Returns (?ys, saveExpenses rt ?ys ls)"
    using assms by (rule updateExpense_array)
  have unmatched: "(\<forall>e \<in> set xs. id' e \<noteq> i) \<longrightarrow> ?ys = xs"
    by (auto intro: map_idI)
  have each: "\<forall>k < length xs.
          (let old = xs ! k; new = ?ys ! k
           in if id' old = i
              then id' new = (case p_id p of None \<Rightarrow> id' old | Some v \<Rightarrow> v) \<and>
                   date new = (case p_date p of None \<Rightarrow> date old | Some v \<Rightarrow> v) \<and>
                   amount new = (case p_amount p of None \<Rightarrow> amount old | Some v \<Rightarrow> v) \<and>
                   category new = (case p_category p of None \<Rightarrow> category old | Some v \<Rightarrow> v) \<and>
                   description new =
                     (case p_description p of None \<Rightarrow> description old | Some v \<Rightarrow> v) \<and>
                   createdAt new = (case p_createdAt p of None \<Rightarrow> createdAt old | Some v \<Rightarrow> v) \<and>
                   updatedAt new = toISOString rt (clock rt)
              else new = old)"
    by (simp add: spread_def Let_def)
  have "length ?ys = length xs"
    by simp
  with returns each unmatched show ?thesis
    by blast
qed

theorem updateExpense_frame_witness:
  "map_option length
     (returnedList (updateExpense (utcBrowser midFebruary) ''a2'' (noFields\<lparr>p_amount := Some 35\<rparr>)
        (storageOf (scenario :: rat Expense list)))) = Some 3 \<and>
   map_option amount
     (returnedRecord (updateExpense (utcBrowser midFebruary) ''a2'' (noFields\<lparr>p_amount := Some 35\<rparr>)
        (storageOf (scenario :: rat Expense list))) 1) = Some 35 \<and>
   map_option id'
     (returnedRecord (updateExpense (utcBrowser midFebruary) ''a2'' (noFields\<lparr>p_amount := Some 35\<rparr>)
        (storageOf (scenario :: rat Expense list))) 1) = Some ''a2'' \<and>
   map_option createdAt
     (returnedRecord (updateExpense (utcBrowser midFebruary) ''a2'' (noFields\<lparr>p_amount := Some 35\<rparr>)
        (storageOf (scenario :: rat Expense list))) 1) = Some ''2024-02-10T09:30:00.000Z'' \<and>
   returnedRecord (updateExpense (utcBrowser midFebruary) ''a2'' (noFields\<lparr>p_amount := Some 35\<rparr>)
        (storageOf (scenario :: rat Expense list))) 0 = Some (scenario ! 0) \<and>
   returnedList (updateExpense (utcBrowser midFebruary) ''zz'' (noFields\<lparr>p_amount := Some 35\<rparr>)
        (storageOf (scenario :: rat Expense list))) = Some scenario"
proof -
  let ?rt = "utcBrowser midFebruary"
  let ?ls = "storageOf (scenario :: rat Expense list)"
  let ?p = "noFields\<lparr>p_amount := Some (35 :: rat)\<rparr>"
  have xs: "getExpenses ?rt ?ls = JArray scenario"
    by (rule getExpenses_storageOf)
  have len: "length (scenario :: rat Expense list) = 3"
    by (simp add: scenario_def)
  from updateExpense_frame [OF xs, of "''a2''" ?p, unfolded len]
  obtain ys ls' where returns: "updateExpense ?rt ''a2'' ?p ?ls = Returns (ys, ls')"
    and size: "length ys = 3"
    and each: "\<forall>k<3.
      (let old = (scenario :: rat Expense list) ! k; new = ys ! k
       in if id' old = ''a2''
          then id' new = (case p_id ?p of None \<Rightarrow> id' old | Some v \<Rightarrow> v) \<and>
               date new = (case p_date ?p of None \<Rightarrow> date old | Some v \<Rightarrow> v) \<and>
               amount new = (case p_amount ?p of None \<Rightarrow> amount old | Some v \<Rightarrow> v) \<and>
               category new = (case p_category ?p of None \<Rightarrow> category old | Some v \<Rightarrow> v) \<and>
               description new = (case p_description ?p of None \<Rightarrow> description old | Some v \<Rightarrow> v) \<and>
               createdAt new = (case p_createdAt ?p of None \<Rightarrow> createdAt old | Some v \<Rightarrow> v) \<and>
               updatedAt new = toISOString ?rt (clock ?rt)
          else new = old)"
    by blast
  from each [rule_format, of 1]
  have matched: "amount (ys ! 1) = 35 \<and> id' (ys ! 1) = ''a2'' \<and>
      createdAt (ys ! 1) = ''2024-02-10T09:30:00.000Z''"
    by (simp add: Let_def scenario_def expense_def noFields_def)
  from each [rule_format, of 0]
  have other: "ys ! 0 = scenario ! 0"
    by (simp add: Let_def scenario_def expense_def)
  have none: "\<forall>e \<in> set (scenario :: rat Expense list). id' e \<noteq> ''zz''"
    by (simp add: scenario_def expense_def)
  from updateExpense_frame [OF xs, of "''zz''" ?p]
  obtain zs ls'' where returns': "updateExpense ?rt ''zz'' ?p ?ls = Returns (zs, ls'')"
    and same: "(\<forall>e \<in> set (scenario :: rat Expense list). id' e \<noteq> ''zz'') \<longrightarrow> zs = scenario"
    by blast
  from same none have absent: "zs = scenario"
    by (rule mp)
  from returns size matched other returns' absent show ?thesis
    by (simp add: returnedRecord_def)
qed

text \<open>
  The claim as written promises that \<open>id\<close> and \<open>createdAt\<close> stay for every set of
  partial fields. They do not when the partial fields carry them: updating the record
  \<open>a1\<close> with \<open>{id: "zz", createdAt: "1999-12-31T00:00:00.000Z"}\<close> changes both.
\<close>

theorem updateExpense_id_counterexample:
  "getExpenses (utcBrowser midFebruary) (storageOf scenario) = (JArray scenario :: rat jsValue) \<and>
   map id' (scenario :: rat Expense list) = [''a1'', ''a2'', ''a3''] \<and>
   map_option (map id')
     (returnedList (updateExpense (utcBrowser midFebruary) ''a1''
        (noFields\<lparr>p_id := Some ''zz'', p_createdAt := Some ''1999-12-31T00:00:00.000Z''\<rparr>)
        (storageOf (scenario :: rat Expense list)))) = Some [''zz'', ''a2'', ''a3''] \<and>
   map createdAt (scenario :: rat Expense list)
     = [''2024-02-10T09:30:00.000Z'', ''2024-02-10T09:30:00.000Z'', ''2024-02-10T09:30:00.000Z''] \<and>
   map_option (map createdAt)
     (returnedList (updateExpense (utcBrowser midFebruary) ''a1''
        (noFields\<lparr>p_id := Some ''zz'', p_createdAt := Some ''1999-12-31T00:00:00.000Z''\<rparr>)
        (storageOf (scenario :: rat Expense list))))
     = Some [''1999-12-31T00:00:00.000Z'', ''2024-02-10T09:30:00.000Z'', ''2024-02-10T09:30:00.000Z'']"
  by (simp add: updateExpense_array [OF getExpenses_storageOf] getExpenses_storageOf)
    (simp add: scenario_def expense_def spread_def noFields_def)

text \<open>
  Claim C4, as the code has it. From a stored list with pairwise distinct ids,
  \<open>deleteExpense\<close> always returns and stores a list with distinct ids; \<open>addExpense\<close>
  does exactly when the id of the new expense is not in the list yet; \<open>updateExpense\<close>
  does when the partial fields carry no id, or the id \<open>i\<close> itself, or an id that no record
  has, or when no record has the id \<open>i\<close>. The list stored afterwards is the returned one
  or, when the write fails, the one stored before.
\<close>

theorem ids_distinct_preserved:
  assumes "getExpenses rt ls = JArray xs" and "distinct (map id' xs)"
  shows
    "(\<exists>ys ls'. deleteExpense rt i ls = Returns (ys, ls') \<and>
        distinct (map id' ys) \<and>
        (\<exists>zs. getExpenses rt ls' = JArray zs \<and> distinct (map id' zs))) \<and>
     (\<exists>ys ls'. addExpense rt e ls = Returns (ys, ls') \<and>
        (distinct (map id' ys) \<longleftrightarrow> id' e \<notin> id' ` set xs) \<and>
        (id' e \<notin> id' ` set xs \<longrightarrow>
           (\<exists>zs. getExpenses rt ls' = JArray zs \<and> distinct (map id' zs)))) \<and>
     (\<exists>ys ls'. updateExpense rt i p ls = Returns (ys, ls') \<and>
        (p_id p = None \<or> p_id p = Some i \<or> i \<notin> id' ` set xs
           \<or> (\<exists>j. p_id p = Some j \<and> j \<notin> id' ` set xs) \<longrightarrow>
           distinct (map id' ys) \<and>
           (\<exists>zs. getExpenses rt ls' = JArray zs \<and> distinct (map id' zs))))"
proof (intro conjI)
  let ?ys = "filter (\<lambda>e. id' e \<noteq> i) xs"
  have "distinct (map id' ?ys)"
    using assms(2) by (simp add: distinct_map_filter)
  moreover from this
  have "\<exists>zs. getExpenses rt (saveExpenses rt ?ys ls) = JArray zs \<and> distinct (map id' zs)"
    by (rule distinct_ids_saved [OF assms])
  moreover have "deleteExpense rt i ls = Returns (?ys, saveExpenses rt ?ys ls)"
    using assms(1) by (rule deleteExpense_array)
  ultimately show "\<exists>ys ls'. deleteExpense rt i ls = Returns (ys, ls') \<and>
        distinct (map id' ys) \<and>
        (\<exists>zs. getExpenses rt ls' = JArray zs \<and> distinct (map id' zs))"
    by blast
next
  let ?ys = "xs @ [e]"
  have added: "distinct (map id' ?ys) \<longleftrightarrow> id' e \<notin> id' ` set xs"
    using assms(2) by simp
  have "id' e \<notin> id' ` set xs \<longrightarrow>
      (\<exists>zs. getExpenses rt (saveExpenses rt ?ys ls) = JArray zs \<and> distinct (map id' zs))"
    using added distinct_ids_saved [OF assms, of ?ys] by blast
  moreover have "addExpense rt e ls = Returns (?ys, saveExpenses rt ?ys ls)"
    using assms(1) by (rule addExpense_array)
  ultimately show "\<exists>ys ls'. addExpense rt e ls = Returns (ys, ls') \<and>
        (distinct (map id' ys) \<longleftrightarrow> id' e \<notin> id' ` set xs) \<and>
        (id' e \<notin> id' ` set xs \<longrightarrow>
           (\<exists>zs. getExpenses rt ls' = JArray zs \<and> distinct (map id' zs)))"
    using added by blast
next
  let ?f = "\<lambda>e. if id' e = i then (spread e p)\<lparr>updatedAt := toISOString rt (clock rt)\<rparr> else e"
  let ?ys = "map ?f xs"
  let ?ok = "p_id p = None \<or> p_id p = Some i \<or> i \<notin> id' ` set xs
           \<or> (\<exists>j. p_id p = Some j \<and> j \<notin> id' ` set xs)"
  have "distinct (map id' ?ys) \<and>
      (\<exists>zs. getExpenses rt (saveExpenses rt ?ys ls) = JArray zs \<and> distinct (map id' zs))"
    if ok: ?ok
  proof -
    from assms(2) ok have "distinct (map id' ?ys)"
      by (rule distinct_ids_updated)
    moreover from this
    have "\<exists>zs. getExpenses rt (saveExpenses rt ?ys ls) = JArray zs \<and> distinct (map id' zs)"
      by (rule distinct_ids_saved [OF assms])
    ultimately show ?thesis ..
  qed
  moreover have "updateExpense rt i p ls = Returns (?ys, saveExpenses rt ?ys ls)"
    using assms(1) by (rule updateExpense_array)
  ultimately show "\<exists>ys ls'. updateExpense rt i p ls = Returns (ys, ls') \<and>
        (?ok \<longrightarrow>
           distinct (map id' ys) \<and>
           (\<exists>zs. getExpenses rt ls' = JArray zs \<and> distinct (map id' zs)))"
    by blast
qed

theorem ids_distinct_preserved_witness:
  "(case returnedList (deleteExpense (utcBrowser midFebruary) ''a2''
       (storageOf (scenario :: rat Expense list))) of
      None \<Rightarrow> False | Some ys \<Rightarrow> distinct (map id' ys)) \<and>
   (case returnedList (addExpense (utcBrowser midFebruary)
       (expense ''a4'' ''2024-02-11T00:00:00.000Z'' 12 Other ''Parking'')
       (storageOf (scenario :: rat Expense list))) of
      None \<Rightarrow> False | Some ys \<Rightarrow> distinct (map id' ys)) \<and>
   (case returnedList (updateExpense (utcBrowser midFebruary) ''a2''
       (noFields\<lparr>p_amount := Some 35\<rparr>) (storageOf (scenario :: rat Expense list))) of
      None \<Rightarrow> False | Some ys \<Rightarrow> distinct (map id' ys))"
proof -
  let ?rt = "utcBrowser midFebruary"
  let ?ls = "storageOf (scenario :: rat Expense list)"
  let ?e = "expense ''a4'' ''2024-02-11T00:00:00.000Z'' (12 :: rat) Other ''Parking''"
  let ?p = "noFields\<lparr>p_amount := Some (35 :: rat)\<rparr>"
  have xs: "getExpenses ?rt ?ls = JArray scenario"
    by (rule getExpenses_storageOf)
  have stored: "distinct (map id' (scenario :: rat Expense list))"
    by (simp add: scenario_ids)
  have new: "id' ?e \<notin> id' ` set (scenario :: rat Expense list)"
    by (simp add: scenario_def expense_def)
  have plain: "p_id ?p = None"
    by (simp add: noFields_def)
  note kept = ids_distinct_preserved [OF xs stored, of "''a2''" ?e ?p]
  from kept obtain ys ls' where "deleteExpense ?rt ''a2'' ?ls = Returns (ys, ls')"
    and "distinct (map id' ys)"
    by blast
  then have del: "case returnedList (deleteExpense ?rt ''a2'' ?ls) of
      None \<Rightarrow> False | Some ys \<Rightarrow> distinct (map id' ys)"
    by simp
  from kept new obtain ys ls' where "addExpense ?rt ?e ?ls = Returns (ys, ls')"
    and "distinct (map id' ys)"
    by blast
  then have add: "case returnedList (addExpense ?rt ?e ?ls) of
      None \<Rightarrow> False | Some ys \<Rightarrow> distinct (map id' ys)"
    by simp
  from kept plain obtain ys ls' where "updateExpense ?rt ''a2'' ?p ?ls = Returns (ys, ls')"
    and "distinct (map id' ys)"
    by blast
  then have upd: "case returnedList (updateExpense ?rt ''a2'' ?p ?ls) of
      None \<Rightarrow> False | Some ys \<Rightarrow> distinct (map id' ys)"
    by simp
  from del add upd show ?thesis
    by (intro conjI)
qed

text \<open>
  No operation checks an id: adding an expense with the id \<open>a1\<close> of a stored record, or
  giving the record \<open>a1\<close> the id \<open>a2\<close> of another, returns a list with a repeated id.
\<close>

theorem ids_distinct_counterexample:
  "getExpenses (utcBrowser midFebruary) (storageOf scenario) = (JArray scenario :: rat jsValue) \<and>
   map id' (scenario :: rat Expense list) = [''a1'', ''a2'', ''a3''] \<and>
   map_option (map id')
     (returnedList (addExpense (utcBrowser midFebruary)
        (expense ''a1'' ''2024-02-11T00:00:00.000Z'' 12 Other ''Parking'')
        (storageOf (scenario :: rat Expense list)))) = Some [''a1'', ''a2'', ''a3'', ''a1''] \<and>
   map_option (map id')
     (returnedList (updateExpense (utcBrowser midFebruary) ''a1''
        (noFields\<lparr>p_id := Some ''a2''\<rparr>) (storageOf (scenario :: rat Expense list))))
     = Some [''a2'', ''a2'', ''a3'']"
  by (simp add: addExpense_array [OF getExpenses_storageOf]
      updateExpense_array [OF getExpenses_storageOf] getExpenses_storageOf)
    (simp add: scenario_def expense_def spread_def noFields_def)

section \<open>CSV export: the text\<close>






section \<open>Summary: top category, category totals, monthly total\<close>

lemma set_categoryKeys: "set categoryKeys = UNIV"
proof -
  have "c \<in> set categoryKeys" for c
    by (cases c) (simp_all add: categoryKeys_def)
  then show ?thesis by auto
qed

lemma calculateSummary_fields:
  "totalExpenses (calculateSummary rt xs) = foldl (\<lambda>sum e. sum + amount e) 0 xs"
  "monthlyTotal (calculateSummary rt xs) =
     foldl (\<lambda>sum e. sum + amount e) 0
       (filter (inCurrentMonth rt (getMonth rt (clock rt)) (getFullYear rt (clock rt))) xs)"
  "categoryTotals (calculateSummary rt xs) =
     foldl (\<lambda>totals e. totals(category e := totals (category e) + amount e)) (\<lambda>_. 0) xs"
  "topCategory (calculateSummary rt xs) =
     fst (foldl (topStep (categoryTotals (calculateSummary rt xs))) (None, 0) categoryKeys)"
  by (simp_all add: calculateSummary_def Let_def)

lemma topStep_pair:
  "topStep t (best, m) c = (if t c > m then (Some c, t c) else (best, m))"
  by (simp add: topStep_def)

lemma topStep_fold:
  fixes t :: "ExpenseCategory \<Rightarrow> 'n::{linorder,zero}"
  shows "foldl (topStep t) (None, 0) cs = (best, m) \<Longrightarrow>
    (\<forall>c \<in> set cs. t c \<le> m) \<and>
    (case best of
       None \<Rightarrow> m = 0
     | Some c \<Rightarrow> c \<in> set cs \<and> t c = m \<and> 0 < m \<and>
         (\<forall>d \<in> set (takeWhile (\<lambda>k. k \<noteq> c) cs). t d < m))"
proof (induction cs arbitrary: best m rule: rev_induct)
  case Nil
  then show ?case by simp
next
  case (snoc x cs)
  obtain best0 m0 where prev: "foldl (topStep t) (None, 0) cs = (best0, m0)"
    by (cases "foldl (topStep t) (None, 0) cs")
  note ih = snoc.IH [OF prev]
  show ?case
  proof (cases "t x > m0")
    case True
    with snoc.prems prev have now: "best = Some x" "m = t x"
      by (simp_all add: topStep_pair)
    have "\<forall>d \<in> set (takeWhile (\<lambda>k. k \<noteq> x) (cs @ [x])). t d < t x"
    proof
      fix d assume "d \<in> set (takeWhile (\<lambda>k. k \<noteq> x) (cs @ [x]))"
      then have "d \<in> set cs"
        by (auto dest: set_takeWhileD)
      with ih True show "t d < t x" by auto
    qed
    moreover have "0 < t x"
      using ih True by (auto split: option.splits)
    ultimately show ?thesis
      using ih True now by auto
  next
    case False
    with snoc.prems prev have now: "best = best0" "m = m0"
      by (simp_all add: topStep_pair)
    show ?thesis
    proof (cases best0)
      case None
      with ih False now show ?thesis by auto
    next
      case (Some c)
      with ih have "c \<in> set cs" by simp
      then have "takeWhile (\<lambda>k. k \<noteq> c) (cs @ [x]) = takeWhile (\<lambda>k. k \<noteq> c) cs"
        by (simp add: takeWhile_append1)
      with ih False now Some show ?thesis by auto
    qed
  qed
qed

lemma topCategory_cases:
  fixes xs :: "('n::{zero,one,plus,inverse,linorder}) Expense list"
  shows "case topCategory (calculateSummary rt xs) of
           None \<Rightarrow> \<forall>c. categoryTotals (calculateSummary rt xs) c \<le> 0
         | Some c \<Rightarrow>
             0 < categoryTotals (calculateSummary rt xs) c \<and>
             (\<forall>d. categoryTotals (calculateSummary rt xs) d
                    \<le> categoryTotals (calculateSummary rt xs) c) \<and>
             (\<forall>d. before d c \<longrightarrow>
                    categoryTotals (calculateSummary rt xs) d
                    < categoryTotals (calculateSummary rt xs) c)"
proof -
  let ?t = "categoryTotals (calculateSummary rt xs)"
  obtain best m where run: "foldl (topStep ?t) (None, 0) categoryKeys = (best, m)"
    by (cases "foldl (topStep ?t) (None, 0) categoryKeys")
  then have top: "topCategory (calculateSummary rt xs) = best"
    by (simp add: calculateSummary_fields(4))
  from topStep_fold [OF run] show ?thesis
    unfolding top by (auto simp: set_categoryKeys before_def split: option.splits)
qed

text \<open>The sample data, evaluated.\<close>

lemma smallChange_total:
  "foldl (+) 0 [literal (1 / 10), literal (2 / 10), literal (4 / 10)]
     = Double (6305039478318695 / 9007199254740992)"
  by code_simp

lemma smallChange_food:
  "foldl (+) 0 [literal (1 / 10), literal (4 / 10)] = Double (1 / 2)"
  by code_simp

lemma smallChange_bills:
  "foldl (+) 0 [literal (2 / 10)] = Double (3602879701896397 / 18014398509481984)"
  by code_simp

lemma smallChange_buckets:
  "foldl (+) 0 [Double (1 / 2), 0, 0, 0, Double (3602879701896397 / 18014398509481984), 0]
     = Double (3152519739159347 / 4503599627370496)"
  by code_simp

lemma scenario_totals:
  "categoryTotals (calculateSummary rt (scenario :: rat Expense list)) = (\<lambda>_. 0)(Food := 50, Bills := 50)"
  by (simp add: calculateSummary_fields scenario_def expense_def fun_eq_iff)

lemma february_records:
  "filter (inCurrentMonth (utcBrowser midFebruary) 1 2024) (scenario :: rat Expense list)
     = [expense ''a3'' ''2024-02-01T00:00:00.000Z'' 50 Bills ''Electricity'']"
  by code_simp

lemma march_records:
  "filter (inCurrentMonth (utcBrowser midMarch) 2 2024) (scenario :: rat Expense list) = []"
  by code_simp

lemma clock_february:
  "getMonth (utcBrowser midFebruary) (clock (utcBrowser midFebruary)) = 1"
  "getFullYear (utcBrowser midFebruary) (clock (utcBrowser midFebruary)) = 2024"
  by code_simp+

lemma clock_march:
  "getMonth (utcBrowser midMarch) (clock (utcBrowser midMarch)) = 2"
  "getFullYear (utcBrowser midMarch) (clock (utcBrowser midMarch)) = 2024"
  by code_simp+

text \<open>
  Amounts that are not negative give category totals that are not negative, in exact
  ordered arithmetic and in double arithmetic.
\<close>

lemma roundHalfEven_nonneg: "0 \<le> m \<Longrightarrow> 0 \<le> roundHalfEven m"
  by (simp add: roundHalfEven_def Let_def)

lemma fl_nonneg: "0 \<le> x \<Longrightarrow> 0 \<le> fl x"
  by (simp add: fl_def Let_def roundHalfEven_nonneg)

lemma double_add_nonneg: "(0::double) \<le> a \<Longrightarrow> 0 \<le> b \<Longrightarrow> 0 \<le> a + b"
  by (simp add: less_eq_double_def zero_double_def plus_double_def fl_nonneg)

lemma totals_fold_nonneg:
  fixes f :: "ExpenseCategory \<Rightarrow> 'n::{zero,plus,ord}"
  assumes add: "\<And>a b :: 'n. 0 \<le> a \<Longrightarrow> 0 \<le> b \<Longrightarrow> 0 \<le> a + b"
    and "\<forall>e \<in> set xs. 0 \<le> amount e" and "\<forall>c. 0 \<le> f c"
  shows "0 \<le> foldl (\<lambda>totals e. totals(category e := totals (category e) + amount e)) f xs c"
  using assms(2,3)
proof (induction xs arbitrary: f)
  case Nil
  then show ?case by simp
next
  case (Cons x xs)
  have "\<forall>c. 0 \<le> (f(category x := f (category x) + amount x)) c"
    using Cons.prems by (simp add: add)
  with Cons show ?case by simp
qed

lemma totals_nonneg_exact:
  fixes xs :: "('n::{ordered_comm_monoid_add,one,inverse}) Expense list"
  assumes "\<forall>e \<in> set xs. 0 \<le> amount e"
  shows "0 \<le> categoryTotals (calculateSummary rt xs) c"
proof -
  have "0 \<le> foldl (\<lambda>totals e. totals(category e := totals (category e) + amount e))
      (\<lambda>_. 0 :: 'n) xs c"
    using assms by (intro totals_fold_nonneg) (simp_all add: add_nonneg_nonneg)
  then show ?thesis
    by (simp add: calculateSummary_fields(3))
qed

lemma totals_nonneg_double:
  fixes xs :: "double Expense list"
  assumes "\<forall>e \<in> set xs. 0 \<le> amount e"
  shows "0 \<le> categoryTotals (calculateSummary rt xs) c"
proof -
  have "0 \<le> foldl (\<lambda>totals e. totals(category e := totals (category e) + amount e))
      (\<lambda>_. 0 :: double) xs c"
    using assms by (intro totals_fold_nonneg) (simp_all add: double_add_nonneg)
  then show ?thesis
    by (simp add: calculateSummary_fields(3))
qed

lemma smallChange_totals:
  "categoryTotals (calculateSummary rt smallChange)
     = (\<lambda>_. 0)(Food := Double (1 / 2), Bills := Double (3602879701896397 / 18014398509481984))"
  using smallChange_food smallChange_bills
  by (simp add: calculateSummary_fields smallChange_def expense_def fun_eq_iff)

lemma smallChange_amounts: "\<forall>e \<in> set smallChange. 0 \<le> amount e"
  by (simp add: smallChange_def expense_def literal_def less_eq_double_def zero_double_def fl_nonneg)

lemma totals_nil:
  "categoryTotals (calculateSummary rt ([] :: ('n::{zero,one,plus,inverse,ord}) Expense list)) c = 0"
  by (simp add: calculateSummary_fields)

text \<open>
  Claim C3. Let no category total be negative (amounts are positive). When all six totals
  are 0, as on the empty list, \<open>topCategory\<close> is absent. Otherwise \<open>topCategory\<close> is a
  category \<open>c\<close> whose total no other total exceeds and which every category before it in
  the order Food, Transportation, Entertainment, Shopping, Bills, Other stays strictly
  below: the earliest of the categories with the greatest total. In particular a category
  whose total is strictly greater than every other total is the top category.
\<close>

theorem topCategory_greatest:
  fixes xs :: "('n::{zero,one,plus,inverse,linorder}) Expense list"
  assumes "\<forall>c. 0 \<le> categoryTotals (calculateSummary rt xs) c"
  shows
    "((\<forall>c. categoryTotals (calculateSummary rt xs) c = 0) \<longrightarrow>
        topCategory (calculateSummary rt xs) = None) \<and>
     ((\<exists>c. categoryTotals (calculateSummary rt xs) c \<noteq> 0) \<longrightarrow>
        (\<exists>c. topCategory (calculateSummary rt xs) = Some c \<and>
             (\<forall>d. categoryTotals (calculateSummary rt xs) d
                    \<le> categoryTotals (calculateSummary rt xs) c) \<and>
             (\<forall>d. before d c \<longrightarrow>
                    categoryTotals (calculateSummary rt xs) d
                    < categoryTotals (calculateSummary rt xs) c))) \<and>
     (\<forall>c. (\<forall>d. d \<noteq> c \<longrightarrow>
                 categoryTotals (calculateSummary rt xs) d
                 < categoryTotals (calculateSummary rt xs) c) \<longrightarrow>
          topCategory (calculateSummary rt xs) = Some c) \<and>
     topCategory (calculateSummary rt ([] :: 'n Expense list)) = None"
proof -
  let ?t = "categoryTotals (calculateSummary rt xs)"
  let ?top = "topCategory (calculateSummary rt xs)"
  note cases = topCategory_cases [of rt xs]
  have zero: "(\<forall>c. ?t c = 0) \<longrightarrow> ?top = None"
  proof
    assume all_zero: "\<forall>c. ?t c = 0"
    show "?top = None"
    proof (cases ?top)
      case None
      then show ?thesis .
    next
      case (Some a)
      with cases have "0 < ?t a" by simp
      with all_zero show ?thesis by simp
    qed
  qed
  have some: "(\<exists>c. ?t c \<noteq> 0) \<longrightarrow>
      (\<exists>c. ?top = Some c \<and> (\<forall>d. ?t d \<le> ?t c) \<and> (\<forall>d. before d c \<longrightarrow> ?t d < ?t c))"
  proof
    assume "\<exists>c. ?t c \<noteq> 0"
    then obtain c where "?t c \<noteq> 0" ..
    with assms have "0 < ?t c"
      by (simp add: less_le)
    with cases obtain b where "?top = Some b"
      by (cases ?top) (auto simp: not_le [symmetric])
    with cases show "\<exists>c. ?top = Some c \<and> (\<forall>d. ?t d \<le> ?t c) \<and> (\<forall>d. before d c \<longrightarrow> ?t d < ?t c)"
      by simp
  qed
  have strict: "\<forall>c. (\<forall>d. d \<noteq> c \<longrightarrow> ?t d < ?t c) \<longrightarrow> ?top = Some c"
  proof (intro allI impI)
    fix c assume greatest: "\<forall>d. d \<noteq> c \<longrightarrow> ?t d < ?t c"
    obtain d :: ExpenseCategory where "d \<noteq> c"
      by (cases c) (auto intro: that [of Food] that [of Other])
    with greatest assms have "0 < ?t c"
      by (meson le_less_trans)
    then have "\<exists>c. ?t c \<noteq> 0"
      by (auto simp: less_le)
    with some obtain b where b: "?top = Some b" "\<forall>d. ?t d \<le> ?t b"
      by blast
    with greatest have "b = c"
      by (metis not_le)
    with b show "?top = Some c" by simp
  qed
  have empty: "topCategory (calculateSummary rt ([] :: 'n Expense list)) = None"
    using topCategory_cases [of rt "[] :: 'n Expense list"]
    by (cases "topCategory (calculateSummary rt ([] :: 'n Expense list))") (auto simp: totals_nil)
  from zero some strict empty show ?thesis
    by (simp only: simp_thms)
qed

theorem topCategory_greatest_witness:
  "topCategory (calculateSummary (utcBrowser midFebruary) (scenario :: rat Expense list)) = Some Food \<and>
   categoryTotals (calculateSummary (utcBrowser midFebruary) (scenario :: rat Expense list)) Food = 50 \<and>
   categoryTotals (calculateSummary (utcBrowser midFebruary) (scenario :: rat Expense list)) Bills = 50 \<and>
   topCategory (calculateSummary (utcBrowser midFebruary) smallChange) = Some Food"
proof -
  let ?s = "calculateSummary (utcBrowser midFebruary) (scenario :: rat Expense list)"
  let ?d = "calculateSummary (utcBrowser midFebruary) smallChange"
  have nonneg: "\<forall>c. 0 \<le> categoryTotals ?s c"
    by (simp add: scenario_totals)
  have "\<exists>c. categoryTotals ?s c \<noteq> 0"
    by (rule exI [of _ Food]) (simp add: scenario_totals)
  with topCategory_greatest [OF nonneg] obtain c
    where c: "topCategory ?s = Some c" "\<forall>d. categoryTotals ?s d \<le> categoryTotals ?s c"
      "\<forall>d. before d c \<longrightarrow> categoryTotals ?s d < categoryTotals ?s c"
    by blast
  from c(2) have "categoryTotals ?s Food \<le> categoryTotals ?s c" ..
  then have "c = Food \<or> c = Bills"
    by (cases c) (simp_all add: scenario_totals)
  moreover have "before Food Bills"
    by (simp add: before_def categoryKeys_def)
  ultimately have "c = Food"
    using c(3) by (auto simp: scenario_totals)
  with c(1) have tie: "topCategory ?s = Some Food"
    by simp
  have nonneg_d: "\<forall>c. 0 \<le> categoryTotals ?d c"
    using smallChange_amounts by (simp add: totals_nonneg_double)
  have "\<forall>d. d \<noteq> Food \<longrightarrow> categoryTotals ?d d < categoryTotals ?d Food"
  proof (intro allI impI)
    fix d :: ExpenseCategory
    assume "d \<noteq> Food"
    then show "categoryTotals ?d d < categoryTotals ?d Food"
      by (cases d) (simp_all add: smallChange_totals less_double_def zero_double_def)
  qed
  with topCategory_greatest [OF nonneg_d] have "topCategory ?d = Some Food"
    by blast
  with tie show ?thesis
    by (simp add: scenario_totals)
qed

lemma foldl_amounts:
  fixes a :: "'n::monoid_add"
  shows "foldl (\<lambda>sum e. sum + amount e) a xs = a + sum_list (map amount xs)"
  by (induction xs arbitrary: a) (simp_all add: add.assoc)

lemma sum_keys_update:
  fixes f :: "ExpenseCategory \<Rightarrow> 'n::comm_monoid_add"
  shows "sum_list (map (f(k := f k + a)) categoryKeys) = sum_list (map f categoryKeys) + a"
  by (cases k) (simp_all add: categoryKeys_def ac_simps)

lemma sum_keys_totals:
  fixes f :: "ExpenseCategory \<Rightarrow> 'n::comm_monoid_add"
  shows "sum_list (map (foldl (\<lambda>totals e. totals(category e := totals (category e) + amount e)) f xs)
            categoryKeys)
         = sum_list (map f categoryKeys) + sum_list (map amount xs)"
  by (induction xs arbitrary: f) (simp_all add: sum_keys_update add.assoc)

text \<open>
  Double addition is exact on whole numbers from 0 whose sum stays below \<open>2^53\<close>, and so
  are the sums of the summary on such amounts.
\<close>

lemma roundHalfEven_of_int: "roundHalfEven (of_int k) = k"
  by (simp add: roundHalfEven_def Let_def)

lemma fl_of_int:
  assumes "0 \<le> n" and "n < 2 ^ 53"
  shows "fl (of_int n) = of_int n"
proof (cases "n = 0")
  case True
  then show ?thesis by (simp add: fl_def)
next
  case False
  with assms(1) have pos: "1 \<le> n" by simp
  have upper: "bitlen n \<le> 53"
    using assms(2) by (simp add: bitlen_le_iff_power)
  have lower: "1 \<le> bitlen n"
    using pos by (simp add: bitlen_ge_iff_power)
  define k where "k = nat (53 - bitlen n)"
  have e: "ilog2 \<bar>of_int n\<bar> - 52 = - int k"
    using pos upper by (simp add: ilog2_def k_def)
  have scale: "(2 :: rat) powi (- int k) = 1 / 2 ^ k"
    by (simp add: power_int_minus_divide)
  have "\<bar>of_int n :: rat\<bar> / 2 powi (- int k) = of_int (n * 2 ^ k)"
    using pos by (simp add: scale)
  then have "roundHalfEven (\<bar>of_int n\<bar> / 2 powi (- int k)) = n * 2 ^ k"
    by (simp only: roundHalfEven_of_int)
  then have "fl (of_int n) = sgn (of_int n :: rat) * of_int (n * 2 ^ k) * (1 / 2 ^ k)"
    using False by (simp add: fl_def e scale Let_def)
  also have "\<dots> = of_int n"
    using pos by simp
  finally show ?thesis .
qed

lemma whole_add:
  "0 \<le> m \<Longrightarrow> 0 \<le> n \<Longrightarrow> m + n < 2 ^ 53 \<Longrightarrow>
   Double (of_int m) + Double (of_int n) = Double (of_int (m + n))"
  using fl_of_int [of "m + n"] by (simp add: plus_double_def)

lemma whole_sum:
  assumes "\<forall>n \<in> set ns. 0 \<le> n" and "0 \<le> a" and "a + sum_list ns < 2 ^ 53"
  shows "foldl (+) (Double (of_int a)) (map (\<lambda>n. Double (of_int n)) ns)
         = Double (of_int (a + sum_list ns))"
  using assms
proof (induction ns arbitrary: a)
  case Nil
  then show ?case by simp
next
  case (Cons n ns)
  have rest: "0 \<le> sum_list ns"
    using Cons.prems(1) by (simp add: sum_list_nonneg)
  with Cons.prems have step: "Double (of_int a) + Double (of_int n) = Double (of_int (a + n))"
    by (intro whole_add) simp_all
  from Cons.prems have "foldl (+) (Double (of_int (a + n))) (map (\<lambda>n. Double (of_int n)) ns)
      = Double (of_int (a + n + sum_list ns))"
    by (intro Cons.IH) simp_all
  with step show ?case
    by (simp add: add.assoc)
qed

lemma whole_amount:
  assumes "wholeAmounts xs" and "e \<in> set xs"
  shows "amount e = Double (of_int (units e))" and "0 \<le> units e"
proof -
  from assms have nonneg: "0 \<le> val (amount e)" and eq: "of_int (units e) = val (amount e)"
    unfolding wholeAmounts_def list_all_iff by blast+
  have "amount e = Double (val (amount e))"
    by simp
  with eq show "amount e = Double (of_int (units e))"
    by (simp only:)
  from nonneg show "0 \<le> units e"
    by (simp add: units_def)
qed

lemma wholeAmounts_Cons: "wholeAmounts (x # xs) \<Longrightarrow> wholeAmounts xs"
  by (simp add: wholeAmounts_def)

lemma wholeTotal_nonneg: "wholeAmounts xs \<Longrightarrow> 0 \<le> wholeTotal xs"
  by (auto simp: wholeTotal_def intro!: sum_list_nonneg dest: whole_amount(2))

lemma whole_total:
  assumes "wholeAmounts xs" and "wholeTotal xs < 2 ^ 53"
  shows "totalExpenses (calculateSummary rt xs) = Double (of_int (wholeTotal xs))"
proof -
  have "foldl (\<lambda>sum e. sum + amount e) a xs = foldl (+) a (map amount xs)" for a :: double
    by (induction xs arbitrary: a) simp_all
  moreover have "map amount xs = map (\<lambda>n. Double (of_int n)) (map units xs)"
    using assms(1) by (simp add: whole_amount(1))
  moreover have "foldl (+) (Double (of_int 0)) (map (\<lambda>n. Double (of_int n)) (map units xs))
      = Double (of_int (0 + sum_list (map units xs)))"
    using assms by (intro whole_sum) (auto simp: wholeTotal_def dest: whole_amount(2))
  ultimately show ?thesis
    by (simp add: calculateSummary_fields(1) wholeTotal_def zero_double_def)
qed

lemma key_le_sum:
  fixes g :: "ExpenseCategory \<Rightarrow> int"
  assumes "\<forall>c. 0 \<le> g c"
  shows "g k \<le> sum_list (map g categoryKeys)"
proof -
  have "0 \<le> g Food" "0 \<le> g Transportation" "0 \<le> g Entertainment" "0 \<le> g Shopping"
    "0 \<le> g Bills" "0 \<le> g Other"
    using assms by simp_all
  then show ?thesis
    by (cases k) (simp_all add: categoryKeys_def)
qed

lemma whole_buckets:
  assumes "wholeAmounts xs" and "\<forall>c. 0 \<le> g c"
    and "sum_list (map g categoryKeys) + wholeTotal xs < 2 ^ 53"
  shows "\<exists>h. (\<forall>c. 0 \<le> h c) \<and>
      sum_list (map h categoryKeys) = sum_list (map g categoryKeys) + wholeTotal xs \<and>
      foldl (\<lambda>totals e. totals(category e := totals (category e) + amount e))
        (\<lambda>c. Double (of_int (g c))) xs
      = (\<lambda>c. Double (of_int (h c)))"
  using assms
proof (induction xs arbitrary: g)
  case Nil
  then show ?case
    by (intro exI [of _ g]) (simp add: wholeTotal_def)
next
  case (Cons x xs)
  let ?u = "units x"
  let ?g = "g(category x := g (category x) + ?u)"
  have x: "amount x = Double (of_int ?u)" "0 \<le> ?u"
    using Cons.prems(1) by (simp_all add: whole_amount)
  have rest: "wholeAmounts xs"
    using Cons.prems(1) by (rule wholeAmounts_Cons)
  then have rest_nonneg: "0 \<le> wholeTotal xs"
    by (rule wholeTotal_nonneg)
  have total: "wholeTotal (x # xs) = ?u + wholeTotal xs"
    by (simp add: wholeTotal_def)
  have "g (category x) \<le> sum_list (map g categoryKeys)"
    using Cons.prems(2) by (rule key_le_sum)
  with Cons.prems(3) rest_nonneg have small: "g (category x) + ?u < 2 ^ 53"
    by (simp add: total)
  have "Double (of_int (g (category x))) + amount x = Double (of_int (g (category x) + ?u))"
    unfolding x(1) using Cons.prems(2) x(2) small by (intro whole_add) simp_all
  then have step: "(\<lambda>c. Double (of_int (g c)))
        (category x := Double (of_int (g (category x))) + amount x)
      = (\<lambda>c. Double (of_int (?g c)))"
    by (simp add: fun_eq_iff)
  have nonneg: "\<forall>c. 0 \<le> ?g c"
    using Cons.prems(2) x(2) by simp
  have sum: "sum_list (map ?g categoryKeys) = sum_list (map g categoryKeys) + ?u"
    by (rule sum_keys_update)
  with Cons.prems(3) have "sum_list (map ?g categoryKeys) + wholeTotal xs < 2 ^ 53"
    by (simp add: total)
  from Cons.IH [OF rest nonneg this] obtain h where h: "\<forall>c. 0 \<le> h c"
    "sum_list (map h categoryKeys) = sum_list (map ?g categoryKeys) + wholeTotal xs"
    "foldl (\<lambda>totals e. totals(category e := totals (category e) + amount e))
        (\<lambda>c. Double (of_int (?g c))) xs = (\<lambda>c. Double (of_int (h c)))"
    by blast
  show ?case
  proof (intro exI [of _ h] conjI)
    show "\<forall>c. 0 \<le> h c" by (rule h(1))
    show "sum_list (map h categoryKeys) = sum_list (map g categoryKeys) + wholeTotal (x # xs)"
      using h(2) sum by (simp add: total)
    show "foldl (\<lambda>totals e. totals(category e := totals (category e) + amount e))
        (\<lambda>c. Double (of_int (g c))) (x # xs) = (\<lambda>c. Double (of_int (h c)))"
      using h(3) by (simp only: foldl_Cons step)
  qed
qed

lemma whole_buckets_sum:
  assumes "wholeAmounts xs" and "wholeTotal xs < 2 ^ 53"
  shows "foldl (+) 0 (map (categoryTotals (calculateSummary rt xs)) categoryKeys)
         = Double (of_int (wholeTotal xs))"
proof -
  have "sum_list (map (\<lambda>_. 0 :: int) categoryKeys) = 0"
    by simp
  with whole_buckets [of xs "\<lambda>_. 0"] assms obtain h where h: "\<forall>c. 0 \<le> h c"
    "sum_list (map h categoryKeys) = wholeTotal xs"
    "foldl (\<lambda>totals e. totals(category e := totals (category e) + amount e))
        (\<lambda>c. Double (of_int 0)) xs = (\<lambda>c. Double (of_int (h c)))"
    by auto
  then have totals: "categoryTotals (calculateSummary rt xs) = (\<lambda>c. Double (of_int (h c)))"
    by (simp add: calculateSummary_fields(3) zero_double_def)
  have "foldl (+) (Double (of_int 0)) (map (\<lambda>n. Double (of_int n)) (map h categoryKeys))
      = Double (of_int (0 + sum_list (map h categoryKeys)))"
    using h(1,2) assms(2) by (intro whole_sum) simp_all
  then show ?thesis
    by (simp add: totals h(2) zero_double_def comp_def)
qed

lemma wholeDollars_whole: "wholeAmounts wholeDollars" "wholeTotal wholeDollars = 100"
  by code_simp+

text \<open>
  Claim C6, where addition is exact. In every number type whose addition is associative and
  commutative with \<open>0\<close> neutral, the six category totals of the summary add up to
  \<open>totalExpenses\<close>. In the double arithmetic of the engine they do when the amounts are
  whole numbers from 0 whose total is below \<open>2^53\<close>, where no addition rounds.
\<close>

theorem categoryTotals_sum_exact:
  fixes xs :: "('n::{comm_monoid_add,one,inverse,ord}) Expense list"
    and ds :: "double Expense list"
  shows
    "sum_list (map (categoryTotals (calculateSummary rt xs)) categoryKeys)
       = totalExpenses (calculateSummary rt xs) \<and>
     (wholeAmounts ds \<and> wholeTotal ds < 2 ^ 53 \<longrightarrow>
        foldl (+) 0 (map (categoryTotals (calculateSummary rt ds)) categoryKeys)
        = totalExpenses (calculateSummary rt ds))"
proof (intro conjI impI)
  show "sum_list (map (categoryTotals (calculateSummary rt xs)) categoryKeys)
      = totalExpenses (calculateSummary rt xs)"
    by (simp add: calculateSummary_fields sum_keys_totals foldl_amounts)
next
  assume "wholeAmounts ds \<and> wholeTotal ds < 2 ^ 53"
  then show "foldl (+) 0 (map (categoryTotals (calculateSummary rt ds)) categoryKeys)
      = totalExpenses (calculateSummary rt ds)"
    by (simp add: whole_buckets_sum whole_total)
qed

theorem categoryTotals_sum_exact_witness:
  "sum_list (map (categoryTotals (calculateSummary (utcBrowser midFebruary) (scenario :: rat Expense list)))
       categoryKeys) = 100 \<and>
   totalExpenses (calculateSummary (utcBrowser midFebruary) (scenario :: rat Expense list)) = 100 \<and>
   foldl (+) 0 (map (categoryTotals (calculateSummary (utcBrowser midFebruary) wholeDollars))
       categoryKeys)
     = totalExpenses (calculateSummary (utcBrowser midFebruary) wholeDollars)"
proof -
  note inst = categoryTotals_sum_exact
    [of "utcBrowser midFebruary" "scenario :: rat Expense list" wholeDollars]
  from inst have "sum_list (map (categoryTotals
      (calculateSummary (utcBrowser midFebruary) (scenario :: rat Expense list))) categoryKeys)
      = totalExpenses (calculateSummary (utcBrowser midFebruary) (scenario :: rat Expense list))"
    by (rule conjunct1)
  then have exact: "sum_list (map (categoryTotals
      (calculateSummary (utcBrowser midFebruary) (scenario :: rat Expense list))) categoryKeys) = 100
      \<and> totalExpenses (calculateSummary (utcBrowser midFebruary) (scenario :: rat Expense list)) = 100"
    by (simp add: scenario_totals categoryKeys_def)
  have "wholeAmounts wholeDollars \<and> wholeTotal wholeDollars < 2 ^ 53"
    by (simp add: wholeDollars_whole)
  with inst have "foldl (+) 0 (map (categoryTotals
      (calculateSummary (utcBrowser midFebruary) wholeDollars)) categoryKeys)
      = totalExpenses (calculateSummary (utcBrowser midFebruary) wholeDollars)"
    by (rule mp [OF conjunct2])
  with exact show ?thesis
    by (intro conjI) simp_all
qed

text \<open>
  With the doubles of the engine the claim fails: the amounts 0.1 (Food), 0.2 (Bills) and
  0.4 (Food) give \<open>totalExpenses = 0.7000000000000001\<close>, while the totals of Food and
  Bills are 0.5 and 0.2 and add up to 0.7, in double arithmetic and exactly.
\<close>

theorem categoryTotals_sum_counterexample:
  "totalExpenses (calculateSummary (utcBrowser midFebruary) smallChange)
     = Double (6305039478318695 / 9007199254740992) \<and>
   map (categoryTotals (calculateSummary (utcBrowser midFebruary) smallChange)) categoryKeys
     = [Double (1 / 2), 0, 0, 0, Double (3602879701896397 / 18014398509481984), 0] \<and>
   foldl (+) 0 (map (categoryTotals (calculateSummary (utcBrowser midFebruary) smallChange)) categoryKeys)
     = Double (3152519739159347 / 4503599627370496) \<and>
   foldl (+) 0 (map (categoryTotals (calculateSummary (utcBrowser midFebruary) smallChange)) categoryKeys)
     \<noteq> totalExpenses (calculateSummary (utcBrowser midFebruary) smallChange) \<and>
   sum_list (map (\<lambda>c. val (categoryTotals (calculateSummary (utcBrowser midFebruary) smallChange) c))
       categoryKeys)
     \<noteq> val (totalExpenses (calculateSummary (utcBrowser midFebruary) smallChange))"
proof -
  let ?s = "calculateSummary (utcBrowser midFebruary) smallChange"
  have total: "totalExpenses ?s = Double (6305039478318695 / 9007199254740992)"
    using smallChange_total by (simp add: calculateSummary_fields smallChange_def expense_def)
  have buckets: "map (categoryTotals ?s) categoryKeys
      = [Double (1 / 2), 0, 0, 0, Double (3602879701896397 / 18014398509481984), 0]"
    using smallChange_food smallChange_bills
    by (simp add: calculateSummary_fields smallChange_def expense_def categoryKeys_def)
  have added: "foldl (+) 0 (map (categoryTotals ?s) categoryKeys)
      = Double (3152519739159347 / 4503599627370496)"
    unfolding buckets by (rule smallChange_buckets)
  have differ: "foldl (+) 0 (map (categoryTotals ?s) categoryKeys) \<noteq> totalExpenses ?s"
    unfolding added total by simp
  have exact: "sum_list (map (\<lambda>c. val (categoryTotals ?s c)) categoryKeys) \<noteq> val (totalExpenses ?s)"
  proof -
    have "map (\<lambda>c. val (categoryTotals ?s c)) categoryKeys = map val (map (categoryTotals ?s) categoryKeys)"
      by simp
    then show ?thesis
      unfolding buckets total by (simp add: zero_double_def)
  qed
  from total buckets added differ exact show ?thesis
    by (simp only: simp_thms)
qed

text \<open>
  Claim C1, as the code has it. \<open>calculateSummary\<close> takes the list alone; the reference time
  is what the system clock shows when it is called. The monthly total is the sum, from
  left to right, of the amounts of exactly those records whose date the runtime reads as
  an instant of the month and year of the clock. The summary is determined by the list,
  the clock and the runtime's reading of dates.
\<close>

theorem monthlyTotal_reads_clock:
  "monthlyTotal (calculateSummary rt xs) =
     foldl (+) 0
       (map amount
          (filter (\<lambda>e. \<exists>t. newDate rt (date e) = Some t \<and>
                          getMonth rt t = getMonth rt (clock rt) \<and>
                          getFullYear rt t = getFullYear rt (clock rt)) xs)) \<and>
   (clock rt' = clock rt \<and> newDate rt' = newDate rt \<and> getMonth rt' = getMonth rt \<and>
    getFullYear rt' = getFullYear rt \<longrightarrow> calculateSummary rt' xs = calculateSummary rt xs)"
proof -
  have pred: "inCurrentMonth rt (getMonth rt (clock rt)) (getFullYear rt (clock rt)) =
      (\<lambda>e. \<exists>t. newDate rt (date e) = Some t \<and> getMonth rt t = getMonth rt (clock rt) \<and>
                getFullYear rt t = getFullYear rt (clock rt))"
    by (auto simp: inCurrentMonth_def fun_eq_iff split: option.splits)
  have fold: "foldl (\<lambda>sum e. sum + amount e) a ys = foldl (+) a (map amount ys)" for a :: 'a and ys
    by (induction ys arbitrary: a) simp_all
  have monthly: "monthlyTotal (calculateSummary rt xs) =
     foldl (+) 0
       (map amount
          (filter (\<lambda>e. \<exists>t. newDate rt (date e) = Some t \<and>
                          getMonth rt t = getMonth rt (clock rt) \<and>
                          getFullYear rt t = getFullYear rt (clock rt)) xs))"
    by (simp only: calculateSummary_fields(2) pred fold)
  have same: "clock rt' = clock rt \<and> newDate rt' = newDate rt \<and> getMonth rt' = getMonth rt \<and>
    getFullYear rt' = getFullYear rt \<longrightarrow> calculateSummary rt' xs = calculateSummary rt xs"
  proof
    assume eq: "clock rt' = clock rt \<and> newDate rt' = newDate rt \<and> getMonth rt' = getMonth rt \<and>
      getFullYear rt' = getFullYear rt"
    then have "inCurrentMonth rt' m y e = inCurrentMonth rt m y e" for m y and e :: "'a Expense"
      by (simp add: inCurrentMonth_def split: option.split)
    then have "inCurrentMonth rt' m y = (inCurrentMonth rt m y :: 'a Expense \<Rightarrow> bool)" for m y
      by (simp add: fun_eq_iff)
    with eq show "calculateSummary rt' xs = calculateSummary rt xs"
      by (simp add: calculateSummary_def)
  qed
  from monthly same show ?thesis
    by (simp only: simp_thms)
qed

theorem monthlyTotal_reads_clock_witness:
  "monthlyTotal (calculateSummary (utcBrowser midFebruary) (scenario :: rat Expense list)) = 50 \<and>
   calculateSummary ((utcBrowser midFebruary)\<lparr>hasWindow := False\<rparr>) (scenario :: rat Expense list)
     = calculateSummary (utcBrowser midFebruary) scenario"
proof -
  have "monthlyTotal (calculateSummary (utcBrowser midFebruary) (scenario :: rat Expense list)) = 50"
    by (simp add: calculateSummary_fields(2) clock_february february_records expense_def)
  moreover have "calculateSummary ((utcBrowser midFebruary)\<lparr>hasWindow := False\<rparr>)
      (scenario :: rat Expense list) = calculateSummary (utcBrowser midFebruary) scenario"
    using monthlyTotal_reads_clock [of "utcBrowser midFebruary" "scenario :: rat Expense list"
        "(utcBrowser midFebruary)\<lparr>hasWindow := False\<rparr>"]
    by (simp add: utcBrowser_def)
  ultimately show ?thesis
    by (simp only: simp_thms)
qed

text \<open>
  The same list gives two summaries under two clocks: in mid-February 2024 the monthly total
  of the scenario is 50, in mid-March it is 0. The result is not determined by the
  arguments of the call.
\<close>

theorem calculateSummary_clock_counterexample:
  "monthlyTotal (calculateSummary (utcBrowser midFebruary) (scenario :: rat Expense list)) = 50 \<and>
   monthlyTotal (calculateSummary (utcBrowser midMarch) (scenario :: rat Expense list)) = 0 \<and>
   calculateSummary (utcBrowser midFebruary) (scenario :: rat Expense list)
     \<noteq> calculateSummary (utcBrowser midMarch) scenario"
proof -
  have feb: "monthlyTotal (calculateSummary (utcBrowser midFebruary) (scenario :: rat Expense list)) = 50"
    by (simp add: calculateSummary_fields(2) clock_february february_records expense_def)
  have mar: "monthlyTotal (calculateSummary (utcBrowser midMarch) (scenario :: rat Expense list)) = 0"
    by (simp add: calculateSummary_fields(2) clock_march march_records)
  from feb mar have "calculateSummary (utcBrowser midFebruary) (scenario :: rat Expense list)
      \<noteq> calculateSummary (utcBrowser midMarch) scenario"
    by (metis zero_neq_numeral)
  with feb mar show ?thesis
    by (simp only: simp_thms)
qed

section \<open>Filter: the records that pass, newest first\<close>

text \<open>Lower case: what \<open>toLowerCase\<close> identifies is what \<open>sameLetter\<close> relates.\<close>

lemma char_eq_code: "c = d \<longleftrightarrow> (of_char c :: nat) = of_char d"
  by simp

lemma capital_range:
  "capital c \<longleftrightarrow>
     (65 \<le> (of_char c :: nat) \<and> (of_char c :: nat) \<le> 90) \<or>
     (192 \<le> (of_char c :: nat) \<and> (of_char c :: nat) \<le> 214) \<or>
     (216 \<le> (of_char c :: nat) \<and> (of_char c :: nat) \<le> 222)"
proof -
  have "c \<in> set ''ABCDEFGHIJKLMNOPQRSTUVWXYZ'' \<longleftrightarrow>
      65 \<le> (of_char c :: nat) \<and> (of_char c :: nat) \<le> 90"
    unfolding list.set insert_iff empty_iff char_eq_code [of c]
    by simp arith
  then show ?thesis
    by (auto simp: capital_def)
qed

lemma of_char_bound: "(of_char c :: nat) < 256"
  by (metis of_char_mod_256 mod_less_divisor zero_less_numeral)

lemma of_char_lowerChar:
  "(of_char (lowerChar c) :: nat) = (if capital c then of_char c + 32 else of_char c)"
proof (cases "capital c")
  case True
  then have "(of_char c :: nat) + 32 < 256"
    by (auto simp: capital_range)
  then have "(of_char (char_of ((of_char c :: nat) + 32)) :: nat) = of_char c + 32"
    by (simp only: of_char_of mod_less)
  with True show ?thesis
    by (simp add: lowerChar_def Let_def capital_range)
next
  case False
  then show ?thesis
    by (auto simp: lowerChar_def Let_def capital_range)
qed

lemma lowerChar_sameLetter: "lowerChar a = lowerChar b \<longleftrightarrow> sameLetter a b"
proof -
  have "lowerChar a = lowerChar b \<longleftrightarrow> (of_char (lowerChar a) :: nat) = of_char (lowerChar b)"
    by simp
  also have "\<dots> \<longleftrightarrow> (of_char a :: nat) = of_char b \<or> smallOf a b \<or> smallOf b a"
    unfolding of_char_lowerChar smallOf_def by (auto simp: capital_range)
  also have "\<dots> \<longleftrightarrow> sameLetter a b"
    by (simp add: sameLetter_def)
  finally show ?thesis .
qed

lemma includes'_sublist: "includes' s query = sublist query s"
  by (induction s) (simp_all add: sublist_Cons_right)

lemma toLowerCase_sameLetter:
  "toLowerCase s = toLowerCase t \<longleftrightarrow> list_all2 sameLetter s t"
proof (induction s arbitrary: t)
  case Nil
  then show ?case by (simp add: toLowerCase_def)
next
  case (Cons c s)
  then show ?case
    by (cases t) (simp_all add: toLowerCase_def lowerChar_sameLetter)
qed

lemma sublist_map_iff:
  "sublist (map f q) (map f d) \<longleftrightarrow> (\<exists>part. sublist part d \<and> map f part = map f q)"
proof
  assume "sublist (map f q) (map f d)"
  then obtain ps ss where "map f d = ps @ map f q @ ss"
    by (auto simp: sublist_def)
  then obtain d1 d2 d3 where "d = d1 @ d2 @ d3" and "map f d2 = map f q"
    by (auto simp: map_eq_append_conv append_eq_map_conv)
  then show "\<exists>part. sublist part d \<and> map f part = map f q"
    by (auto simp: sublist_def)
next
  assume "\<exists>part. sublist part d \<and> map f part = map f q"
  then obtain part ps ss where "d = ps @ part @ ss" and "map f part = map f q"
    by (auto simp: sublist_def)
  then have "map f d = map f ps @ map f q @ map f ss"
    by simp
  then show "sublist (map f q) (map f d)"
    unfolding sublist_def by blast
qed

lemma includes'_toLowerCase:
  "includes' (toLowerCase d) (toLowerCase q) \<longleftrightarrow>
     (\<exists>part. sublist part d \<and> list_all2 sameLetter part q)"
  unfolding includes'_sublist
  using sublist_map_iff [of lowerChar q d] toLowerCase_sameLetter
  by (simp add: toLowerCase_def)

lemma dateGe_instants:
  "dateGe rt a b \<longleftrightarrow> (\<exists>t s. newDate rt a = Some t \<and> newDate rt b = Some s \<and> s \<le> t)"
  by (auto simp: dateGe_def split: option.splits)

lemma dateLe_instants:
  "dateLe rt a b \<longleftrightarrow> (\<exists>t s. newDate rt a = Some t \<and> newDate rt b = Some s \<and> t \<le> s)"
  by (auto simp: dateLe_def split: option.splits)

lemma textPasses_code:
  "textPasses filters e \<longleftrightarrow>
     \<not> nonEmpty (searchQuery filters)
     \<or> includes' (toLowerCase (description e)) (toLowerCase (the (searchQuery filters)))"
  by (auto simp: textPasses_def nonEmpty_def includes'_toLowerCase split: option.splits)

lemma startPasses_code:
  "startPasses rt filters e \<longleftrightarrow>
     \<not> nonEmpty (startDate filters) \<or> dateGe rt (date e) (the (startDate filters))"
  by (auto simp: startPasses_def nonEmpty_def dateGe_instants split: option.splits)

lemma endPasses_code:
  "endPasses rt filters e \<longleftrightarrow>
     \<not> nonEmpty (endDate filters) \<or> dateLe rt (date e) (the (endDate filters))"
  by (auto simp: endPasses_def nonEmpty_def dateLe_instants split: option.splits)

lemma filterExpenses_passes:
  "filterExpenses rt filters xs = sortBy (compareFn rt) (filter (passes rt filters) xs)"
proof -
  have cat: "(if category' filters \<noteq> None \<and> category' filters \<noteq> Some All
        then filter (\<lambda>e. Some (Only (category e)) = category' filters) ys else ys)
      = filter (categoryPasses filters) ys" for ys :: "'a Expense list"
    by (auto simp: categoryPasses_def intro: filter_cong)
  have search: "(if nonEmpty (searchQuery filters)
        then (let query = toLowerCase (the (searchQuery filters))
              in filter (\<lambda>e. includes' (toLowerCase (description e)) query) ys)
        else ys)
      = filter (textPasses filters) ys" for ys :: "'a Expense list"
    by (auto simp: textPasses_code intro: filter_cong)
  have start: "(if nonEmpty (startDate filters)
        then filter (\<lambda>e. dateGe rt (date e) (the (startDate filters))) ys else ys)
      = filter (startPasses rt filters) ys" for ys :: "'a Expense list"
    by (auto simp: startPasses_code intro: filter_cong)
  have end': "(if nonEmpty (endDate filters)
        then filter (\<lambda>e. dateLe rt (date e) (the (endDate filters))) ys else ys)
      = filter (endPasses rt filters) ys" for ys :: "'a Expense list"
    by (auto simp: endPasses_code intro: filter_cong)
  have "filterExpenses rt filters xs =
      sortBy (compareFn rt)
        (filter (endPasses rt filters) (filter (startPasses rt filters)
           (filter (textPasses filters) (filter (categoryPasses filters) xs))))"
    unfolding filterExpenses_def Let_def cat search [unfolded Let_def] start end' ..
  also have "filter (endPasses rt filters) (filter (startPasses rt filters)
           (filter (textPasses filters) (filter (categoryPasses filters) xs)))
      = filter (passes rt filters) xs"
    by (auto simp: passes_def intro: filter_cong)
  finally show ?thesis .
qed

lemma mset_insertBy: "mset (insertBy cmp x xs) = add_mset x (mset xs)"
  by (induction xs) auto

lemma mset_sortBy: "mset (sortBy cmp xs) = mset xs"
  by (induction xs) (simp_all add: sortBy_def mset_insertBy)

lemma set_sortBy: "set (sortBy cmp xs) = set xs"
  by (metis mset_sortBy set_mset_mset)

lemma sortBy_Cons: "sortBy cmp (x # xs) = insertBy cmp x (sortBy cmp xs)"
  by (simp add: sortBy_def)

lemma sortBy_sorted_id: "sorted_wrt (\<lambda>a b. cmp a b \<le> 0) xs \<Longrightarrow> sortBy cmp xs = xs"
proof (induction xs)
  case Nil
  then show ?case by (simp add: sortBy_def)
next
  case (Cons x xs)
  then have "sortBy cmp xs = xs" by simp
  with Cons.prems show ?case
    by (cases xs) (simp_all add: sortBy_Cons)
qed

lemma compareFn_valid:
  "newDate rt (date a) \<noteq> None \<Longrightarrow> newDate rt (date b) \<noteq> None \<Longrightarrow>
   compareFn rt a b \<le> 0 \<longleftrightarrow> timeOf rt b \<le> timeOf rt a"
  by (auto simp: compareFn_def timeOf_def)

lemma insertBy_newestFirst:
  assumes "\<forall>e \<in> set (x # xs). newDate rt (date e) \<noteq> None" and "newestFirst rt xs"
  shows "newestFirst rt (insertBy (compareFn rt) x xs)"
  using assms
proof (induction xs)
  case Nil
  then show ?case by (simp add: newestFirst_def)
next
  case (Cons y ys)
  then have "newestFirst rt (insertBy (compareFn rt) x ys)"
    by (simp add: newestFirst_def)
  with Cons.prems show ?case
    by (auto simp: newestFirst_def compareFn_valid set_mset_mset [symmetric] mset_insertBy
        simp del: set_mset_mset)
qed

lemma sortBy_newestFirst:
  "\<forall>e \<in> set xs. newDate rt (date e) \<noteq> None \<Longrightarrow> newestFirst rt (sortBy (compareFn rt) xs)"
proof (induction xs)
  case Nil
  then show ?case by (simp add: sortBy_def newestFirst_def)
next
  case (Cons x xs)
  then show ?case
    by (simp add: sortBy_Cons insertBy_newestFirst set_sortBy)
qed

lemma newestFirst_compareFn:
  assumes "\<forall>e \<in> set xs. newDate rt (date e) \<noteq> None" and "newestFirst rt xs"
  shows "sorted_wrt (\<lambda>a b. compareFn rt a b \<le> 0) xs"
proof (rule sorted_wrt_mono_rel)
  show "sorted_wrt (\<lambda>a b. timeOf rt a \<ge> timeOf rt b) xs"
    using assms(2) by (simp add: newestFirst_def)
next
  fix a b
  assume "a \<in> set xs" "b \<in> set xs" "timeOf rt b \<le> timeOf rt a"
  with assms(1) show "compareFn rt a b \<le> 0"
    by (simp add: compareFn_valid)
qed


text \<open>The scenario, filtered.\<close>

lemma scenario_valid:
  "list_all (\<lambda>e. newDate (utcBrowser midFebruary) (date e) \<noteq> None) (scenario :: rat Expense list)"
  by code_simp

lemma scenario_food:
  "map id' (filterExpenses (utcBrowser midFebruary) foodOnly (scenario :: rat Expense list))
     = [''a2'', ''a1'']"
  by code_simp





lemma scenario_dates:
  "\<forall>e \<in> set (scenario :: rat Expense list). newDate (utcBrowser midFebruary) (date e) \<noteq> None"
  using scenario_valid by (simp only: list_all_iff)



text \<open>
  Claim C8. On a list whose dates are valid, filtering the result of the filter again with
  the same criteria returns that result, record for record.
\<close>

theorem filterExpenses_idempotent:
  assumes "\<forall>e \<in> set xs. newDate rt (date e) \<noteq> None"
  shows "filterExpenses rt filters (filterExpenses rt filters xs) = filterExpenses rt filters xs"
proof -
  let ?out = "filterExpenses rt filters xs"
  have members: "set ?out = set (filter (passes rt filters) xs)"
    by (simp add: filterExpenses_passes set_sortBy)
  then have keep: "filter (passes rt filters) ?out = ?out"
    by (auto intro: filter_True)
  have valid: "\<forall>e \<in> set ?out. newDate rt (date e) \<noteq> None"
    using assms members by auto
  moreover have "newestFirst rt ?out"
    using assms by (simp add: filterExpenses_passes sortBy_newestFirst)
  ultimately have "sorted_wrt (\<lambda>a b. compareFn rt a b \<le> 0) ?out"
    by (rule newestFirst_compareFn)
  then have "sortBy (compareFn rt) ?out = ?out"
    by (rule sortBy_sorted_id)
  with keep show ?thesis
    by (simp add: filterExpenses_passes [of rt filters ?out])
qed

theorem filterExpenses_idempotent_witness:
  "filterExpenses (utcBrowser midFebruary) januaryLunch
     (filterExpenses (utcBrowser midFebruary) januaryLunch (scenario :: rat Expense list))
     = filterExpenses (utcBrowser midFebruary) januaryLunch scenario \<and>
   map id' (filterExpenses (utcBrowser midFebruary) foodOnly
     (filterExpenses (utcBrowser midFebruary) foodOnly (scenario :: rat Expense list)))
     = [''a2'', ''a1'']"
proof -
  have "filterExpenses (utcBrowser midFebruary) foodOnly
      (filterExpenses (utcBrowser midFebruary) foodOnly (scenario :: rat Expense list))
      = filterExpenses (utcBrowser midFebruary) foodOnly scenario"
    using scenario_dates by (rule filterExpenses_idempotent)
  then have "map id' (filterExpenses (utcBrowser midFebruary) foodOnly
      (filterExpenses (utcBrowser midFebruary) foodOnly (scenario :: rat Expense list)))
      = [''a2'', ''a1'']"
    by (simp only: scenario_food)
  with filterExpenses_idempotent [OF scenario_dates, of januaryLunch] show ?thesis
    by (intro conjI)
qed

end
